theory Spec2Isabelle
  imports Main "HOL-Library.AList"
begin

section \<open>Static discovery of test classes: avocado/core/safeloader/core.py\<close>

text \<open>
  A shallow embedding of \<^verbatim>\<open>avocado/core/safeloader/core.py\<close>. The syntax trees of
  Python's \<^verbatim>\<open>ast\<close> module are datatypes and records, the in-place updates of
  \<^verbatim>\<open>info\<close>, \<^verbatim>\<open>disabled\<close>, \<^verbatim>\<open>parents\<close> and \<^verbatim>\<open>match\<close> are explicit state
  passing, every exception is a value of type \<open>error\<close>, and the recursion of
  \<^verbatim>\<open>_examine_class\<close> carries the interpreter's recursion budget.
  A leading underscore is not an Isabelle identifier, so \<^verbatim>\<open>_examine_class\<close> is
  \<open>examine_class\<close>, and likewise for the other private functions.
\<close>

subsection \<open>Syntax trees\<close>

text \<open>
  The expressions that can stand in a class's base list, as far as the code tells them
  apart: \<^verbatim>\<open>ast.Name\<close> has \<^verbatim>\<open>id\<close>; \<^verbatim>\<open>ast.Attribute\<close> has \<^verbatim>\<open>value\<close> and \<^verbatim>\<open>attr\<close>;
  \<open>Subscript\<close> stands for the nodes with \<^verbatim>\<open>value\<close> and no \<^verbatim>\<open>attr\<close>
  (\<^verbatim>\<open>Generic[T]\<close>, a starred base); \<open>Call\<close> for the nodes with none of the three
  (\<^verbatim>\<open>with_metaclass(M)\<close>).
\<close>

datatype expr =
    Name string
  | Attribute expr string
  | Subscript expr
  | Call

text \<open>
  Modelled from the spec: \<^verbatim>\<open>avocado/core/safeloader/docstring.py\<close> is not part of the
  sources. The spec's directive set is what a docstring parses to: the flags
  \<^verbatim>\<open>enable\<close>, \<^verbatim>\<open>disable\<close>, \<^verbatim>\<open>recursive\<close>, a set of tags and a sequence of
  requirements. An absent docstring is the record with no flag, no tag and no
  requirement.
\<close>

record directive_set =
  enable :: bool
  disable :: bool
  recursive :: bool
  tags :: "string set"
  requirements :: "string list"

definition no_directives :: directive_set where
  "no_directives =
     \<lparr>enable = False, disable = False, recursive = False, tags = {}, requirements = []\<rparr>"

definition get_docstring_directives :: "directive_set \<Rightarrow> string list" where
  "get_docstring_directives d =
     (if enable d then [''enable''] else []) @
     (if disable d then [''disable''] else []) @
     (if recursive d then [''recursive''] else [])"

definition check_docstring_directive :: "directive_set \<Rightarrow> string \<Rightarrow> bool" where
  "check_docstring_directive d directive \<longleftrightarrow> directive \<in> set (get_docstring_directives d)"

definition get_docstring_directives_tags :: "directive_set \<Rightarrow> string set" where
  "get_docstring_directives_tags d = tags d"

definition get_docstring_directives_requirements :: "directive_set \<Rightarrow> string list" where
  "get_docstring_directives_requirements d = requirements d"

text \<open>
  A statement of a class body: a \<^verbatim>\<open>def\<close> with its name and docstring, or anything
  else (\<^verbatim>\<open>isinstance(st, ast.FunctionDef)\<close> is false).
\<close>

datatype stmt =
    FunctionDef string directive_set
  | OtherStmt

record klass =
  name :: string
  bases :: "expr list"
  docstring :: directive_set
  body :: "stmt list"

text \<open>
  Modelled from the spec: \<^verbatim>\<open>avocado/core/safeloader/module.py\<close> is not part of the
  sources. The spec's SourceModule has a path, an import table from local alias to
  the imported object's path, and its top-level classes in declaration order
  (\<^verbatim>\<open>iter_classes\<close>); the structural match \<^verbatim>\<open>is_matching_klass\<close> is a parameter of
  the module.
\<close>

record python_module =
  path :: string
  imported_objects :: "string \<rightharpoonup> string"
  classes :: "klass list"
  is_matching_klass :: "klass \<Rightarrow> bool"

text \<open>
  What the code reads from outside: \<^verbatim>\<open>PythonModule(path, module, klass)\<close> (\<open>None\<close>
  when the constructor raises), \<^verbatim>\<open>PathFinder.find_spec(name, paths)\<close> reduced to the
  \<^verbatim>\<open>origin\<close> of the spec it finds, and \<^verbatim>\<open>sys.path\<close>.
\<close>

record env =
  PythonModule :: "string \<Rightarrow> string \<Rightarrow> string \<Rightarrow> python_module option"
  find_spec :: "string \<Rightarrow> string list \<Rightarrow> string option"
  sys_path :: "string list"

datatype error =
    ClassNotSuitable
  | AttributeError
  | ValueError
  | ModuleError
  | RecursionError

type_synonym method_info = "string \<times> string set \<times> string list"

type_synonym examined = "error + (method_info list \<times> string set \<times> bool)"

subsection \<open>Paths (POSIX)\<close>

definition sep :: char where
  "sep = CHR ''/''"

definition basename :: "string \<Rightarrow> string" where
  "basename p = rev (takeWhile (\<lambda>c. c \<noteq> sep) (rev p))"

definition dirname :: "string \<Rightarrow> string" where
  "dirname p =
     (let head = rev (dropWhile (\<lambda>c. c \<noteq> sep) (rev p))
      in if head \<noteq> [] \<and> head \<noteq> replicate (length head) sep
         then rev (dropWhile (\<lambda>c. c = sep) (rev head))
         else head)"

text \<open>
  \<^verbatim>\<open>a, b, c = s.rsplit(os.path.sep, 2)\<close>: the three parts when \<open>s\<close> has two
  separators or more, \<open>None\<close> when the unpacking raises \<^verbatim>\<open>ValueError\<close>.
\<close>

definition rsplit_sep_2 :: "string \<Rightarrow> (string \<times> string \<times> string) option" where
  "rsplit_sep_2 s =
     (let r = rev s;
          c = takeWhile (\<lambda>x. x \<noteq> sep) r;
          r1 = dropWhile (\<lambda>x. x \<noteq> sep) r
      in if r1 = [] then None
         else let b = takeWhile (\<lambda>x. x \<noteq> sep) (tl r1);
                  r2 = dropWhile (\<lambda>x. x \<noteq> sep) (tl r1)
              in if r2 = [] then None
                 else Some (rev (tl r2), rev b, rev c))"

subsection \<open>Methods of one class\<close>

definition startswith :: "string \<Rightarrow> string \<Rightarrow> bool" where
  "startswith s prefix \<longleftrightarrow> take (length prefix) s = prefix"

fun get_methods_info_loop ::
  "stmt list \<Rightarrow> string set \<Rightarrow> string list \<Rightarrow> method_info list \<Rightarrow> method_info list" where
  "get_methods_info_loop [] class_tags class_requirements methods_info = methods_info"
| "get_methods_info_loop (OtherStmt # statement_body) class_tags class_requirements methods_info =
     get_methods_info_loop statement_body class_tags class_requirements methods_info"
| "get_methods_info_loop (FunctionDef st_name st_doc # statement_body)
       class_tags class_requirements methods_info =
     (if startswith st_name ''test'' then
        (let mt_tags = get_docstring_directives_tags st_doc \<union> class_tags;
             mt_requirements = get_docstring_directives_requirements st_doc @ class_requirements;
             methods = map fst methods_info
         in if st_name \<notin> set methods
            then get_methods_info_loop statement_body class_tags class_requirements
                   (methods_info @ [(st_name, mt_tags, mt_requirements)])
            else get_methods_info_loop statement_body class_tags class_requirements methods_info)
      else get_methods_info_loop statement_body class_tags class_requirements methods_info)"

definition get_methods_info ::
  "stmt list \<Rightarrow> string set \<Rightarrow> string list \<Rightarrow> method_info list" where
  "get_methods_info statement_body class_tags class_requirements =
     get_methods_info_loop statement_body class_tags class_requirements []"

fun extend_test_list :: "method_info list \<Rightarrow> method_info list \<Rightarrow> method_info list" where
  "extend_test_list current [] = current"
| "extend_test_list current (test # new) =
     (if fst test \<notin> set (map fst current)
      then extend_test_list (current @ [test]) new
      else extend_test_list current new)"

subsection \<open>Parents in the same module\<close>

text \<open>
  \<^verbatim>\<open>_examine_same_module\<close>. The argument \<open>examine\<close> is the recursive call
  \<^verbatim>\<open>_examine_class(target_module, target_class, determine_match, \<cdot>, \<cdot>, \<cdot>)\<close> on a path,
  a class name and a match flag. The loop runs over the copy \<^verbatim>\<open>parents[:]\<close> and
  updates \<open>parents\<close>, \<open>info\<close>, \<open>disabled\<close> and \<open>match\<close>; the caller sees all four.
  \<^verbatim>\<open>parents.remove(parent)\<close> is \<open>remove1\<close>: syntax nodes compare by identity in Python
  and by structure here, and two nodes of the same structure get the same answer from
  the recursive call, so both are removed or both are kept.
\<close>

fun examine_same_module_loop ::
  "(string \<Rightarrow> string \<Rightarrow> bool \<Rightarrow> examined) \<Rightarrow> expr list \<Rightarrow> expr list \<Rightarrow> method_info list \<Rightarrow>
   string set \<Rightarrow> bool \<Rightarrow> python_module \<Rightarrow>
   error + (expr list \<times> method_info list \<times> string set \<times> bool)" where
  "examine_same_module_loop examine [] parents info disabled match module =
     Inr (parents, info, disabled, match)"
| "examine_same_module_loop examine (Name parent_class # todo) parents info disabled match module =
     (case examine (path module) parent_class match of
        Inl e \<Rightarrow> Inl e
      | Inr (info', disable', match') \<Rightarrow>
          examine_same_module_loop examine todo
            (if info' \<noteq> [] then remove1 (Name parent_class) parents else parents)
            (if info' \<noteq> [] then extend_test_list info info' else info)
            (if info' \<noteq> [] then disabled \<union> disable' else disabled)
            (if match' \<noteq> match then match' else match)
            module)"
| "examine_same_module_loop examine (parent # todo) parents info disabled match module =
     examine_same_module_loop examine todo parents info disabled match module"

definition examine_same_module ::
  "(string \<Rightarrow> string \<Rightarrow> bool \<Rightarrow> examined) \<Rightarrow> expr list \<Rightarrow> method_info list \<Rightarrow>
   string set \<Rightarrow> bool \<Rightarrow> python_module \<Rightarrow>
   error + (expr list \<times> method_info list \<times> string set \<times> bool)" where
  "examine_same_module examine parents info disabled match module =
     examine_same_module_loop examine parents parents info disabled match module"

subsection \<open>Parents in other modules\<close>

fun get_attributes_for_further_examination ::
  "expr \<Rightarrow> python_module \<Rightarrow> error + (string \<times> string \<times> string)" where
  "get_attributes_for_further_examination (Attribute (Name value_id) attr) module =
     (case imported_objects module value_id of
        None \<Rightarrow> Inl ClassNotSuitable
      | Some parent' \<Rightarrow> Inr (dirname parent', basename parent', attr))"
| "get_attributes_for_further_examination (Attribute v attr) module = Inl ClassNotSuitable"
| "get_attributes_for_further_examination (Subscript (Name value_id)) module =
     (case imported_objects module value_id of
        None \<Rightarrow> Inl ClassNotSuitable
      | Some parent' \<Rightarrow> Inl AttributeError)"
| "get_attributes_for_further_examination (Subscript v) module = Inl ClassNotSuitable"
| "get_attributes_for_further_examination (Name parent_id) module =
     (case imported_objects module parent_id of
        None \<Rightarrow> Inl ClassNotSuitable
      | Some parent' \<Rightarrow>
          (case rsplit_sep_2 parent' of
             None \<Rightarrow> Inl ValueError
           | Some parts \<Rightarrow> Inr parts))"
| "get_attributes_for_further_examination Call module = Inl AttributeError"

text \<open>
  The loop over the parents that are left, lines 174 to 198 of \<^verbatim>\<open>_examine_class\<close> and
  lines 276 to 300 of \<^verbatim>\<open>find_python_tests\<close>. The two copies differ in one call: a
  non-empty \<^verbatim>\<open>_info\<close> is merged by \<^verbatim>\<open>_extend_test_list(info, _info)\<close> in the first and by
  \<^verbatim>\<open>info.extend(_info)\<close> in the second. The model takes the merge as \<open>merge\<close>.
\<close>

fun examine_other_modules ::
  "(method_info list \<Rightarrow> method_info list \<Rightarrow> method_info list) \<Rightarrow>
   (string \<Rightarrow> string \<Rightarrow> bool \<Rightarrow> examined) \<Rightarrow> env \<Rightarrow> expr list \<Rightarrow> method_info list \<Rightarrow>
   string set \<Rightarrow> bool \<Rightarrow> python_module \<Rightarrow> examined" where
  "examine_other_modules merge examine e [] info disabled match module =
     Inr (info, disabled, match)"
| "examine_other_modules merge examine e (parent # parents) info disabled match module =
     (case get_attributes_for_further_examination parent module of
        Inl ClassNotSuitable \<Rightarrow>
          examine_other_modules merge examine e parents info disabled match module
      | Inl err \<Rightarrow> Inl err
      | Inr (parent_path, parent_module, parent_class) \<Rightarrow>
          (let modules_paths = [parent_path, dirname (path module)] @ sys_path e
           in case find_spec e parent_module modules_paths of
                None \<Rightarrow> examine_other_modules merge examine e parents info disabled match module
              | Some origin \<Rightarrow>
                  (case examine origin parent_class match of
                     Inl err \<Rightarrow> Inl err
                   | Inr (info', disabled', match') \<Rightarrow>
                       examine_other_modules merge examine e parents
                         (if info' \<noteq> [] then merge info info' else info)
                         (if info' \<noteq> [] then disabled \<union> disabled' else disabled)
                         (if match' \<noteq> match then match' else match)
                         module)))"

subsection \<open>The hierarchy resolver\<close>

text \<open>
  The body of \<^verbatim>\<open>for klass in module.iter_classes()\<close> in \<^verbatim>\<open>_examine_class\<close>. There is
  no \<^verbatim>\<open>break\<close>: every class of the requested name is examined, \<open>info\<close> is assigned
  anew for each, \<open>disabled\<close> and \<open>match\<close> carry over.
\<close>

fun examine_class_loop ::
  "(string \<Rightarrow> string \<Rightarrow> bool \<Rightarrow> examined) \<Rightarrow> env \<Rightarrow>
   (python_module \<Rightarrow> klass \<Rightarrow> directive_set \<Rightarrow> bool) \<Rightarrow> python_module \<Rightarrow> string \<Rightarrow>
   klass list \<Rightarrow> method_info list \<Rightarrow> string set \<Rightarrow> bool \<Rightarrow> examined" where
  "examine_class_loop examine e determine_match module class_name [] info disabled match =
     Inr (info, disabled, match)"
| "examine_class_loop examine e determine_match module class_name (k # ks) info disabled match =
     (if class_name \<noteq> name k
      then examine_class_loop examine e determine_match module class_name ks info disabled match
      else
        (let match1 = (if \<not> match then determine_match module k (docstring k) else match);
             info1 = get_methods_info (body k)
                       (get_docstring_directives_tags (docstring k))
                       (get_docstring_directives_requirements (docstring k))
         in case examine_same_module examine (bases k) info1 disabled match1 module of
              Inl err \<Rightarrow> Inl err
            | Inr (parents, info2, disabled2, match2) \<Rightarrow>
                (case examine_other_modules extend_test_list examine e parents
                        info2 disabled2 match2 module of
                   Inl err \<Rightarrow> Inl err
                 | Inr (info3, disabled3, match3) \<Rightarrow>
                     examine_class_loop examine e determine_match module class_name ks
                       info3 disabled3 match3)))"

text \<open>
  \<^verbatim>\<open>_examine_class\<close>. The second argument is the number of nested calls of
  \<^verbatim>\<open>_examine_class\<close> the interpreter still allows: a call with none left raises
  \<^verbatim>\<open>RecursionError\<close>, and each call hands one less to the calls it makes.
\<close>

primrec examine_class ::
  "env \<Rightarrow> nat \<Rightarrow> string \<Rightarrow> string \<Rightarrow> (python_module \<Rightarrow> klass \<Rightarrow> directive_set \<Rightarrow> bool) \<Rightarrow>
   string \<Rightarrow> string \<Rightarrow> bool \<Rightarrow> examined" where
  "examine_class e 0 target_module target_class determine_match p class_name match =
     Inl RecursionError"
| "examine_class e (Suc depth) target_module target_class determine_match p class_name match =
     (case PythonModule e p target_module target_class of
        None \<Rightarrow> Inl ModuleError
      | Some module \<Rightarrow>
          examine_class_loop
            (examine_class e depth target_module target_class determine_match)
            e determine_match module class_name (classes module) [] {} match)"

subsection \<open>The discovery driver\<close>

type_synonym discovered = "(string \<times> method_info list) list \<times> string set"

text \<open>
  The body of the loop of \<^verbatim>\<open>find_python_tests\<close> for one class. The result is an
  \<^verbatim>\<open>OrderedDict\<close>: an association list in which an assignment to a present key
  replaces the value in place and an assignment to a new key appends. The set
  \<open>disabled\<close> is the driver's own, which the two loops over the parents update in
  place; the last statement, \<^verbatim>\<open>disabled.update(disabled)\<close>, changes nothing.
\<close>

definition find_python_tests_klass ::
  "env \<Rightarrow> nat \<Rightarrow> string \<Rightarrow> string \<Rightarrow> (python_module \<Rightarrow> klass \<Rightarrow> directive_set \<Rightarrow> bool) \<Rightarrow>
   python_module \<Rightarrow> klass \<Rightarrow> discovered \<Rightarrow> error + discovered" where
  "find_python_tests_klass e depth target_module target_class determine_match module k st =
     (case st of (result, disabled) \<Rightarrow>
        if check_docstring_directive (docstring k) ''disable''
        then Inr (result, insert (name k) disabled)
        else if check_docstring_directive (docstring k) ''enable''
        then Inr (AList.update (name k)
                    (get_methods_info (body k)
                       (get_docstring_directives_tags (docstring k))
                       (get_docstring_directives_requirements (docstring k)))
                    result,
                  disabled)
        else
          (let match = (if check_docstring_directive (docstring k) ''recursive'' then True
                        else is_matching_klass module k);
               info = get_methods_info (body k)
                        (get_docstring_directives_tags (docstring k))
                        (get_docstring_directives_requirements (docstring k));
               examine = examine_class e depth target_module target_class determine_match
           in case examine_same_module examine (bases k) info disabled match module of
                Inl err \<Rightarrow> Inl err
              | Inr (parents, info2, disabled2, match2) \<Rightarrow>
                  (case examine_other_modules (@) examine e parents
                          info2 disabled2 match2 module of
                     Inl err \<Rightarrow> Inl err
                   | Inr (info3, disabled3, match3) \<Rightarrow>
                       Inr (if match3 then AList.update (name k) info3 result else result,
                            disabled3))))"

fun find_python_tests_loop ::
  "env \<Rightarrow> nat \<Rightarrow> string \<Rightarrow> string \<Rightarrow> (python_module \<Rightarrow> klass \<Rightarrow> directive_set \<Rightarrow> bool) \<Rightarrow>
   python_module \<Rightarrow> klass list \<Rightarrow> discovered \<Rightarrow> error + discovered" where
  "find_python_tests_loop e depth target_module target_class determine_match module [] st =
     Inr st"
| "find_python_tests_loop e depth target_module target_class determine_match module (k # ks) st =
     (case find_python_tests_klass e depth target_module target_class determine_match
             module k st of
        Inl err \<Rightarrow> Inl err
      | Inr st' \<Rightarrow>
          find_python_tests_loop e depth target_module target_class determine_match
            module ks st')"

definition find_python_tests ::
  "env \<Rightarrow> nat \<Rightarrow> string \<Rightarrow> string \<Rightarrow> (python_module \<Rightarrow> klass \<Rightarrow> directive_set \<Rightarrow> bool) \<Rightarrow>
   string \<Rightarrow> error + discovered" where
  "find_python_tests e depth target_module target_class determine_match p =
     (case PythonModule e p target_module target_class of
        None \<Rightarrow> Inl ModuleError
      | Some module \<Rightarrow>
          find_python_tests_loop e depth target_module target_class determine_match
            module (classes module) ([], {}))"

definition determine_match_avocado :: "python_module \<Rightarrow> klass \<Rightarrow> directive_set \<Rightarrow> bool" where
  "determine_match_avocado module k doc =
     (let directives = get_docstring_directives doc
      in if ''disable'' \<in> set directives then True
         else if ''enable'' \<in> set directives then True
         else if ''recursive'' \<in> set directives then True
         else is_matching_klass module k)"

definition find_avocado_tests :: "env \<Rightarrow> nat \<Rightarrow> string \<Rightarrow> error + discovered" where
  "find_avocado_tests e depth p =
     find_python_tests e depth ''avocado'' ''Test'' determine_match_avocado p"

definition determine_match_unittest :: "python_module \<Rightarrow> klass \<Rightarrow> directive_set \<Rightarrow> bool" where
  "determine_match_unittest module k doc = is_matching_klass module k"

definition find_python_unittests ::
  "env \<Rightarrow> nat \<Rightarrow> string \<Rightarrow> error + (string \<times> method_info list) list" where
  "find_python_unittests e depth p =
     (case find_python_tests e depth ''unittest'' ''TestCase'' determine_match_unittest p of
        Inl err \<Rightarrow> Inl err
      | Inr (found, _) \<Rightarrow> Inr found)"

abbreviation own_methods_info :: "klass \<Rightarrow> method_info list" where
  "own_methods_info k \<equiv>
     get_methods_info (body k) (get_docstring_directives_tags (docstring k))
       (get_docstring_directives_requirements (docstring k))"

subsection \<open>Notions used by the properties\<close>

text \<open>An examiner keeps the match: called with \<open>True\<close>, it returns \<open>True\<close>.\<close>

definition keeps_match :: "(string \<Rightarrow> string \<Rightarrow> bool \<Rightarrow> examined) \<Rightarrow> bool" where
  "keeps_match examine \<longleftrightarrow>
     (\<forall>p c info disabled match. examine p c True = Inr (info, disabled, match) \<longrightarrow> match)"

text \<open>
  The pairs of path and class name that examining a base expression can lead to: the
  class of that name in the same file, and the class that the import table and the
  module search resolve the expression to.
\<close>

definition parent_references :: "env \<Rightarrow> python_module \<Rightarrow> expr \<Rightarrow> (string \<times> string) list" where
  "parent_references e module parent =
     (case parent of Name parent_class \<Rightarrow> [(path module, parent_class)] | _ \<Rightarrow> []) @
     (case get_attributes_for_further_examination parent module of
        Inl err \<Rightarrow> []
      | Inr (parent_path, parent_module, parent_class) \<Rightarrow>
          (case find_spec e parent_module
                  ([parent_path, dirname (path module)] @ sys_path e) of
             None \<Rightarrow> []
           | Some origin \<Rightarrow> [(origin, parent_class)]))"

definition references ::
  "env \<Rightarrow> string \<Rightarrow> string \<Rightarrow> string \<times> string \<Rightarrow> (string \<times> string) list" where
  "references e tm tc pc =
     (case PythonModule e (fst pc) tm tc of
        None \<Rightarrow> []
      | Some module \<Rightarrow>
          concat (map (\<lambda>k. concat (map (parent_references e module) (bases k)))
            (filter (\<lambda>k. name k = snd pc) (classes module))))"

text \<open>
  The base references as a relation on pairs of path and class name, and the classes
  that a pair reaches through them.
\<close>

definition reference_rel ::
  "env \<Rightarrow> string \<Rightarrow> string \<Rightarrow> ((string \<times> string) \<times> (string \<times> string)) set" where
  "reference_rel e tm tc = {(pc, r). r \<in> set (references e tm tc pc)}"

text \<open>
  An entry is declared at a pair when the file at that path loads, has a class of that
  name with a method of the entry's name, and the entry carries the tags and
  requirements of that method followed by those of that class. It is inherited from a
  pair when it is declared at a pair reached from it, and it comes from the parents
  of a class when it is inherited from a pair that one of the base expressions refers
  to.
\<close>

definition declared_at :: "env \<Rightarrow> string \<Rightarrow> string \<Rightarrow> string \<times> string \<Rightarrow> method_info \<Rightarrow> bool" where
  "declared_at e tm tc pc x \<longleftrightarrow>
     (\<exists>module k doc. PythonModule e (fst pc) tm tc = Some module \<and>
        k \<in> set (classes module) \<and> name k = snd pc \<and>
        FunctionDef (fst x) doc \<in> set (body k) \<and>
        x = (fst x, tags doc \<union> tags (docstring k),
              requirements doc @ requirements (docstring k)))"

definition inherited_from ::
  "env \<Rightarrow> string \<Rightarrow> string \<Rightarrow> string \<times> string \<Rightarrow> method_info \<Rightarrow> bool" where
  "inherited_from e tm tc start x \<longleftrightarrow>
     (\<exists>pc. (start, pc) \<in> (reference_rel e tm tc)\<^sup>* \<and> declared_at e tm tc pc x)"

definition from_parents ::
  "env \<Rightarrow> string \<Rightarrow> string \<Rightarrow> python_module \<Rightarrow> expr list \<Rightarrow> method_info \<Rightarrow> bool" where
  "from_parents e tm tc module parents x \<longleftrightarrow>
     (\<exists>parent\<in>set parents. \<exists>r\<in>set (parent_references e module parent).
        inherited_from e tm tc r x)"

text \<open>
  The list recorded for a class name: the own methods of a class of that name, followed
  by entries that come from its parents.
\<close>

definition recorded ::
  "env \<Rightarrow> string \<Rightarrow> string \<Rightarrow> python_module \<Rightarrow> string \<Rightarrow> method_info list \<Rightarrow> bool" where
  "recorded e tm tc module c info \<longleftrightarrow>
     (\<exists>k\<in>set (classes module). name k = c \<and>
        (\<exists>inherited. info = own_methods_info k @ inherited \<and>
           (\<forall>x\<in>set inherited. from_parents e tm tc module (bases k) x)))"

text \<open>The first \<^verbatim>\<open>def\<close> of a name in a class body, with its docstring.\<close>

definition first_definition :: "stmt list \<Rightarrow> string \<Rightarrow> directive_set \<Rightarrow> bool" where
  "first_definition statement_body n doc \<longleftrightarrow>
     (\<exists>before after. statement_body = before @ FunctionDef n doc # after \<and>
        (\<forall>doc'. FunctionDef n doc' \<notin> set before))"

text \<open>
  A base expression contributes no class when the code skips it as not suitable (the
  import table has no entry for it), or the module search finds no file for it, or
  the file found declares no class of the name it resolves to.
\<close>

definition contributes_no_class ::
  "env \<Rightarrow> string \<Rightarrow> string \<Rightarrow> python_module \<Rightarrow> expr \<Rightarrow> bool" where
  "contributes_no_class e tm tc module parent \<longleftrightarrow>
     (case get_attributes_for_further_examination parent module of
        Inl err \<Rightarrow> err = ClassNotSuitable
      | Inr (parent_path, parent_module, parent_class) \<Rightarrow>
          (case find_spec e parent_module
                  ([parent_path, dirname (path module)] @ sys_path e) of
             None \<Rightarrow> True
           | Some origin \<Rightarrow>
               (case PythonModule e origin tm tc of
                  None \<Rightarrow> False
                | Some found \<Rightarrow> parent_class \<notin> name ` set (classes found))))"

subsection \<open>Example files\<close>

text \<open>A directory that holds one file, and no module that the search could find.\<close>

definition one_file :: "python_module \<Rightarrow> env" where
  "one_file module =
     \<lparr>PythonModule = (\<lambda>p tm tc. if p = path module then Some module else None),
      find_spec = (\<lambda>module_name paths. None),
      sys_path = []\<rparr>"

definition tagged :: "string set \<Rightarrow> directive_set" where
  "tagged ts = no_directives\<lparr>tags := ts\<rparr>"

text \<open>
  \<^verbatim>\<open>class Base(GenericTestBase)\<close> with \<^verbatim>\<open>test_a\<close>, then \<^verbatim>\<open>class Child(Base)\<close> with
  \<^verbatim>\<open>test_b\<close>; the file imports the target class as \<^verbatim>\<open>GenericTestBase\<close>.
\<close>

definition base_klass :: klass where
  "base_klass =
     \<lparr>name = ''Base'', bases = [Name ''GenericTestBase''], docstring = no_directives,
      body = [FunctionDef ''test_a'' no_directives]\<rparr>"

definition child_klass :: klass where
  "child_klass =
     \<lparr>name = ''Child'', bases = [Name ''Base''], docstring = no_directives,
      body = [FunctionDef ''test_b'' no_directives]\<rparr>"

definition inherit_module :: python_module where
  "inherit_module =
     \<lparr>path = ''/t/inherit.py'',
      imported_objects = [''GenericTestBase'' \<mapsto> ''/t/generic/GenericTestBase''],
      classes = [base_klass, child_klass],
      is_matching_klass = (\<lambda>k. Name ''GenericTestBase'' \<in> set (bases k))\<rparr>"

text \<open>
  The same file in a directory where the module search finds the package that defines
  the target: \<^verbatim>\<open>/lib/generic/__init__.py\<close> imports \<^verbatim>\<open>GenericTestBase\<close> from a
  submodule and declares no class itself.
\<close>

definition generic_package :: python_module where
  "generic_package =
     \<lparr>path = ''/lib/generic/__init__.py'',
      imported_objects = [''GenericTestBase'' \<mapsto> ''/lib/generic/core/GenericTestBase''],
      classes = [],
      is_matching_klass = (\<lambda>k. False)\<rparr>"

definition installed :: env where
  "installed =
     \<lparr>PythonModule = (\<lambda>p tm tc. if p = ''/t/inherit.py'' then Some inherit_module
                                else if p = ''/lib/generic/__init__.py'' then Some generic_package
                                else None),
      find_spec = (\<lambda>module_name paths.
                     if module_name = ''generic'' \<and> ''/lib'' \<in> set paths
                     then Some ''/lib/generic/__init__.py'' else None),
      sys_path = [''/lib'']\<rparr>"

definition inherit_rank :: "string \<times> string \<Rightarrow> nat" where
  "inherit_rank pc = (if snd pc = ''Child'' then 2 else if snd pc = ''Base'' then 1 else 0)"

text \<open>The same two classes, \<^verbatim>\<open>Base\<close> now with class tags and method tags.\<close>

definition tagged_base_klass :: klass where
  "tagged_base_klass =
     \<lparr>name = ''Base'', bases = [Name ''GenericTestBase''], docstring = tagged {''slow''},
      body = [FunctionDef ''test_a'' (tagged {''net''})]\<rparr>"

definition tagged_module :: python_module where
  "tagged_module =
     \<lparr>path = ''/t/tagged.py'',
      imported_objects = [''GenericTestBase'' \<mapsto> ''/t/generic/GenericTestBase''],
      classes = [tagged_base_klass, child_klass],
      is_matching_klass = (\<lambda>k. Name ''GenericTestBase'' \<in> set (bases k))\<rparr>"

text \<open>
  \<^verbatim>\<open>Base\<close> with the class tag \<^verbatim>\<open>slow\<close> declares \<^verbatim>\<open>test_a\<close> (tag \<^verbatim>\<open>net\<close>) and
  \<^verbatim>\<open>test_c\<close>; \<^verbatim>\<open>Child(Base)\<close> with the class tag \<^verbatim>\<open>fast\<close> overrides \<^verbatim>\<open>test_a\<close>
  (tag \<^verbatim>\<open>child\<close>).
\<close>

definition tagged_parent_klass :: klass where
  "tagged_parent_klass =
     \<lparr>name = ''Base'', bases = [Name ''GenericTestBase''], docstring = tagged {''slow''},
      body = [FunctionDef ''test_a'' (tagged {''net''}), FunctionDef ''test_c'' no_directives]\<rparr>"

definition tagged_override_klass :: klass where
  "tagged_override_klass =
     \<lparr>name = ''Child'', bases = [Name ''Base''], docstring = tagged {''fast''},
      body = [FunctionDef ''test_a'' (tagged {''child''})]\<rparr>"

definition tagged_override_module :: python_module where
  "tagged_override_module =
     \<lparr>path = ''/t/tagged_override.py'',
      imported_objects = [''GenericTestBase'' \<mapsto> ''/t/generic/GenericTestBase''],
      classes = [tagged_parent_klass, tagged_override_klass],
      is_matching_klass = (\<lambda>k. Name ''GenericTestBase'' \<in> set (bases k))\<rparr>"

text \<open>
  \<^verbatim>\<open>class Child(Base)\<close> and \<^verbatim>\<open>class Base(Test)\<close> both declare \<^verbatim>\<open>test_a\<close>: in two
  files (\<^verbatim>\<open>/t/child.py\<close> has \<^verbatim>\<open>from base import Base\<close>, \<^verbatim>\<open>/t/base.py\<close> has
  \<^verbatim>\<open>from avocado import Test\<close>), and in one file.
\<close>

definition override_klass :: klass where
  "override_klass =
     \<lparr>name = ''Child'', bases = [Name ''Base''], docstring = no_directives,
      body = [FunctionDef ''test_a'' (tagged {''child''})]\<rparr>"

definition foreign_base_klass :: klass where
  "foreign_base_klass =
     \<lparr>name = ''Base'', bases = [Name ''Test''], docstring = no_directives,
      body = [FunctionDef ''test_a'' (tagged {''base''})]\<rparr>"

definition child_module :: python_module where
  "child_module =
     \<lparr>path = ''/t/child.py'',
      imported_objects = [''Base'' \<mapsto> ''/t/base/Base''],
      classes = [override_klass],
      is_matching_klass = (\<lambda>k. False)\<rparr>"

definition base_module :: python_module where
  "base_module =
     \<lparr>path = ''/t/base.py'',
      imported_objects = [''Test'' \<mapsto> ''/t/avocado/Test''],
      classes = [foreign_base_klass],
      is_matching_klass = (\<lambda>k. Name ''Test'' \<in> set (bases k))\<rparr>"

definition two_files :: env where
  "two_files =
     \<lparr>PythonModule = (\<lambda>p tm tc. if p = ''/t/child.py'' then Some child_module
                                else if p = ''/t/base.py'' then Some base_module else None),
      find_spec = (\<lambda>module_name paths.
                     if module_name = ''base'' \<and> ''/t'' \<in> set paths then Some ''/t/base.py''
                     else None),
      sys_path = []\<rparr>"

definition same_file_override_module :: python_module where
  "same_file_override_module =
     \<lparr>path = ''/t/override.py'',
      imported_objects = [''Test'' \<mapsto> ''/t/avocado/Test''],
      classes = [foreign_base_klass, override_klass],
      is_matching_klass = (\<lambda>k. Name ''Test'' \<in> set (bases k))\<rparr>"

text \<open>A class with \<^verbatim>\<open>enable\<close> whose parent, in the same file, has a test of its own.\<close>

definition enabled_klass :: klass where
  "enabled_klass =
     \<lparr>name = ''Enabled'', bases = [Name ''Base''],
      docstring = no_directives\<lparr>enable := True, tags := {''fast''}\<rparr>,
      body = [FunctionDef ''test_own'' (tagged {''net''}), FunctionDef ''helper'' no_directives,
              OtherStmt]\<rparr>"

definition enabled_module :: python_module where
  "enabled_module =
     \<lparr>path = ''/t/enabled.py'',
      imported_objects = [''GenericTestBase'' \<mapsto> ''/t/generic/GenericTestBase''],
      classes = [base_klass, enabled_klass],
      is_matching_klass = (\<lambda>k. Name ''GenericTestBase'' \<in> set (bases k))\<rparr>"

text \<open>Classes named \<^verbatim>\<open>Foo\<close> with directives, alone and after another \<^verbatim>\<open>Foo\<close>.\<close>

definition foo_enabled_klass :: klass where
  "foo_enabled_klass =
     \<lparr>name = ''Foo'', bases = [], docstring = no_directives\<lparr>enable := True\<rparr>,
      body = [FunctionDef ''test_a'' no_directives]\<rparr>"

definition foo_disabled_klass :: klass where
  "foo_disabled_klass =
     \<lparr>name = ''Foo'', bases = [], docstring = no_directives\<lparr>disable := True\<rparr>,
      body = [FunctionDef ''test_b'' no_directives]\<rparr>"

definition foo_both_klass :: klass where
  "foo_both_klass =
     \<lparr>name = ''Foo'', bases = [],
      docstring = no_directives\<lparr>enable := True, disable := True\<rparr>,
      body = [FunctionDef ''test_b'' no_directives]\<rparr>"

definition foo_enabled_again_klass :: klass where
  "foo_enabled_again_klass =
     \<lparr>name = ''Foo'', bases = [], docstring = no_directives\<lparr>enable := True\<rparr>,
      body = [FunctionDef ''test_b'' no_directives]\<rparr>"

definition twice_enabled_module :: python_module where
  "twice_enabled_module =
     \<lparr>path = ''/t/twice.py'', imported_objects = Map.empty,
      classes = [foo_enabled_klass, foo_enabled_again_klass],
      is_matching_klass = (\<lambda>k. False)\<rparr>"

definition disabled_module :: python_module where
  "disabled_module =
     \<lparr>path = ''/t/disabled.py'', imported_objects = Map.empty,
      classes = [foo_disabled_klass],
      is_matching_klass = (\<lambda>k. False)\<rparr>"

definition redefined_module :: python_module where
  "redefined_module =
     \<lparr>path = ''/t/redefined.py'', imported_objects = Map.empty,
      classes = [foo_enabled_klass, foo_disabled_klass],
      is_matching_klass = (\<lambda>k. False)\<rparr>"

definition both_module :: python_module where
  "both_module =
     \<lparr>path = ''/t/both.py'', imported_objects = Map.empty,
      classes = [foo_both_klass],
      is_matching_klass = (\<lambda>k. False)\<rparr>"

definition redefined_both_module :: python_module where
  "redefined_both_module =
     \<lparr>path = ''/t/redefined_both.py'', imported_objects = Map.empty,
      classes = [foo_enabled_klass, foo_both_klass],
      is_matching_klass = (\<lambda>k. False)\<rparr>"

text \<open>
  \<^verbatim>\<open>class Child(unresolved.Foreign)\<close> in a file that imports nothing, without and with
  the \<^verbatim>\<open>recursive\<close> directive.
\<close>

definition unresolved_klass :: klass where
  "unresolved_klass =
     \<lparr>name = ''Child'', bases = [Attribute (Name ''unresolved'') ''Foreign''],
      docstring = no_directives, body = [FunctionDef ''test_own'' no_directives]\<rparr>"

definition unresolved_module :: python_module where
  "unresolved_module =
     \<lparr>path = ''/t/unresolved.py'', imported_objects = Map.empty,
      classes = [unresolved_klass],
      is_matching_klass = (\<lambda>k. False)\<rparr>"

definition recursive_unresolved_klass :: klass where
  "recursive_unresolved_klass =
     \<lparr>name = ''Child'', bases = [Attribute (Name ''unresolved'') ''Foreign''],
      docstring = no_directives\<lparr>recursive := True\<rparr>,
      body = [FunctionDef ''test_own'' no_directives]\<rparr>"

definition recursive_unresolved_module :: python_module where
  "recursive_unresolved_module =
     \<lparr>path = ''/t/recursive.py'', imported_objects = Map.empty,
      classes = [recursive_unresolved_klass],
      is_matching_klass = (\<lambda>k. False)\<rparr>"

text \<open>\<^verbatim>\<open>class A(A)\<close>.\<close>

definition cyclic_klass :: klass where
  "cyclic_klass =
     \<lparr>name = ''A'', bases = [Name ''A''], docstring = no_directives, body = []\<rparr>"

definition cyclic_module :: python_module where
  "cyclic_module =
     \<lparr>path = ''/t/cyclic.py'', imported_objects = Map.empty,
      classes = [cyclic_klass],
      is_matching_klass = (\<lambda>k. False)\<rparr>"

section \<open>Properties\<close>

lemmas model_simps =
  find_avocado_tests_def find_python_tests_def find_python_tests_klass_def
  examine_same_module_def determine_match_avocado_def
  check_docstring_directive_def get_docstring_directives_def
  get_docstring_directives_tags_def get_docstring_directives_requirements_def
  get_methods_info_def startswith_def no_directives_def tagged_def
  rsplit_sep_2_def dirname_def basename_def sep_def one_file_def

subsection \<open>Methods of one class, merging\<close>

lemma get_methods_info_loop_entries:
  "x \<in> set (get_methods_info_loop statement_body ct cr acc) \<Longrightarrow>
   x \<in> set acc \<or>
   (\<exists>doc. FunctionDef (fst x) doc \<in> set statement_body \<and> startswith (fst x) ''test'' \<and>
      x = (fst x, tags doc \<union> ct, requirements doc @ cr))"
proof (induction statement_body arbitrary: acc)
  case Nil
  then show ?case by simp
next
  case (Cons st statement_body)
  show ?case
  proof (cases st)
    case OtherStmt
    with Cons.prems have "x \<in> set (get_methods_info_loop statement_body ct cr acc)" by simp
    from Cons.IH [OF this] show ?thesis by auto
  next
    case (FunctionDef n doc)
    let ?new = "(n, tags doc \<union> ct, requirements doc @ cr)"
    from Cons.prems FunctionDef consider
      "x \<in> set (get_methods_info_loop statement_body ct cr acc)"
      | "startswith n ''test''"
        "x \<in> set (get_methods_info_loop statement_body ct cr (acc @ [?new]))"
      by (auto simp: Let_def get_docstring_directives_tags_def
          get_docstring_directives_requirements_def split: if_splits)
    then show ?thesis
    proof cases
      case 1
      from Cons.IH [OF this] show ?thesis by auto
    next
      case 2
      from Cons.IH [OF 2(2)] have "x \<in> set acc \<or> x = ?new \<or>
        (\<exists>doc. FunctionDef (fst x) doc \<in> set statement_body \<and> startswith (fst x) ''test'' \<and>
          x = (fst x, tags doc \<union> ct, requirements doc @ cr))" by auto
      then show ?thesis using 2(1) FunctionDef by auto
    qed
  qed
qed

lemma get_methods_info_entries:
  "x \<in> set (get_methods_info statement_body ct cr) \<Longrightarrow>
   \<exists>doc. FunctionDef (fst x) doc \<in> set statement_body \<and> startswith (fst x) ''test'' \<and>
      x = (fst x, tags doc \<union> ct, requirements doc @ cr)"
  using get_methods_info_loop_entries [of x statement_body ct cr "[]"]
  by (simp add: get_methods_info_def)

lemma get_methods_info_loop_names:
  "fst ` set (get_methods_info_loop statement_body ct cr acc) =
   fst ` set acc \<union> {n. \<exists>doc. FunctionDef n doc \<in> set statement_body \<and> startswith n ''test''}"
  by (induction statement_body ct cr acc rule: get_methods_info_loop.induct)
    (auto simp: Let_def)

lemma get_methods_info_names:
  "fst ` set (get_methods_info statement_body ct cr) =
   {n. \<exists>doc. FunctionDef n doc \<in> set statement_body \<and> startswith n ''test''}"
  by (simp add: get_methods_info_def get_methods_info_loop_names)

lemma get_methods_info_loop_distinct:
  "distinct (map fst acc) \<Longrightarrow>
   distinct (map fst (get_methods_info_loop statement_body ct cr acc))"
  by (induction statement_body ct cr acc rule: get_methods_info_loop.induct)
    (auto simp: Let_def)

lemma get_methods_info_distinct:
  "distinct (map fst (get_methods_info statement_body ct cr))"
  by (simp add: get_methods_info_def get_methods_info_loop_distinct)

lemma extend_test_list_set:
  "set (extend_test_list current new) \<subseteq> set current \<union> set new"
  by (induction current new rule: extend_test_list.induct) auto

lemma extend_test_list_distinct:
  "distinct (map fst current) \<Longrightarrow> distinct (map fst (extend_test_list current new))"
  by (induction current new rule: extend_test_list.induct) auto

lemma extend_test_list_prefix:
  "\<exists>added. extend_test_list current new = current @ added"
  by (induction current new rule: extend_test_list.induct) auto

lemma check_docstring_directive_simps:
  "check_docstring_directive d ''enable'' = enable d"
  "check_docstring_directive d ''disable'' = disable d"
  "check_docstring_directive d ''recursive'' = recursive d"
  by (auto simp: check_docstring_directive_def get_docstring_directives_def)

subsection \<open>Loop invariants\<close>

text \<open>
  One rule for each loop: a property of the loop's state that holds before the loop and
  is kept by every pass holds of what the loop returns.
\<close>

lemma same_module_loop_invariant:
  assumes "examine_same_module_loop examine todo parents info disabled match module =
      Inr (parents', info', disabled', match')"
    and "I parents info disabled match"
    and "\<And>c ps i d m i2 d2 m2.
      Name c \<in> set todo \<Longrightarrow> I ps i d m \<Longrightarrow> examine (path module) c m = Inr (i2, d2, m2) \<Longrightarrow>
      I (if i2 \<noteq> [] then remove1 (Name c) ps else ps)
        (if i2 \<noteq> [] then extend_test_list i i2 else i)
        (if i2 \<noteq> [] then d \<union> d2 else d) m2"
  shows "I parents' info' disabled' match'"
  using assms
proof (induction todo arbitrary: parents info disabled match)
  case Nil
  then show ?case by simp
next
  case (Cons parent todo)
  have step: "I (if i2 \<noteq> [] then remove1 (Name c) ps else ps)
        (if i2 \<noteq> [] then extend_test_list i i2 else i)
        (if i2 \<noteq> [] then d \<union> d2 else d) m2"
    if "Name c \<in> set todo" "I ps i d m" "examine (path module) c m = Inr (i2, d2, m2)"
    for c ps i d m i2 d2 m2
    using that by (intro Cons.prems(3) [of c ps i d m i2 d2 m2]) simp_all
  show ?case
  proof (cases parent)
    case (Name c)
    with Cons.prems(1) obtain i2 d2 m2 where
      ex: "examine (path module) c match = Inr (i2, d2, m2)"
      and rest: "examine_same_module_loop examine todo
          (if i2 \<noteq> [] then remove1 (Name c) parents else parents)
          (if i2 \<noteq> [] then extend_test_list info i2 else info)
          (if i2 \<noteq> [] then disabled \<union> d2 else disabled) m2 module =
        Inr (parents', info', disabled', match')"
      by (auto split: sum.splits if_splits)
    have "I (if i2 \<noteq> [] then remove1 (Name c) parents else parents)
          (if i2 \<noteq> [] then extend_test_list info i2 else info)
          (if i2 \<noteq> [] then disabled \<union> d2 else disabled) m2"
      using Cons.prems(2) ex by (rule Cons.prems(3) [rotated]) (simp add: Name)
    from rest this step show ?thesis by (rule Cons.IH)
  next
    case (Attribute v a)
    with Cons.prems(1) have "examine_same_module_loop examine todo parents info disabled match
        module = Inr (parents', info', disabled', match')" by simp
    from this Cons.prems(2) step show ?thesis by (rule Cons.IH)
  next
    case (Subscript v)
    with Cons.prems(1) have "examine_same_module_loop examine todo parents info disabled match
        module = Inr (parents', info', disabled', match')" by simp
    from this Cons.prems(2) step show ?thesis by (rule Cons.IH)
  next
    case Call
    with Cons.prems(1) have "examine_same_module_loop examine todo parents info disabled match
        module = Inr (parents', info', disabled', match')" by simp
    from this Cons.prems(2) step show ?thesis by (rule Cons.IH)
  qed
qed

lemma other_modules_invariant:
  assumes "examine_other_modules merge examine e parents info disabled match module =
      Inr (info', disabled', match')"
    and "I info disabled match"
    and "\<And>parent pp pm pc origin i d m i2 d2 m2.
      parent \<in> set parents \<Longrightarrow>
      get_attributes_for_further_examination parent module = Inr (pp, pm, pc) \<Longrightarrow>
      find_spec e pm ([pp, dirname (path module)] @ sys_path e) = Some origin \<Longrightarrow>
      I i d m \<Longrightarrow> examine origin pc m = Inr (i2, d2, m2) \<Longrightarrow>
      I (if i2 \<noteq> [] then merge i i2 else i) (if i2 \<noteq> [] then d \<union> d2 else d) m2"
  shows "I info' disabled' match'"
  using assms
proof (induction parents arbitrary: info disabled match)
  case Nil
  then show ?case by simp
next
  case (Cons parent parents)
  have step: "I (if i2 \<noteq> [] then merge i i2 else i) (if i2 \<noteq> [] then d \<union> d2 else d) m2"
    if "parent' \<in> set parents"
      "get_attributes_for_further_examination parent' module = Inr (pp, pm, pc)"
      "find_spec e pm ([pp, dirname (path module)] @ sys_path e) = Some origin"
      "I i d m" "examine origin pc m = Inr (i2, d2, m2)"
    for parent' pp pm pc origin i d m i2 d2 m2
    using that by (intro Cons.prems(3) [of parent' pp pm pc origin i d m i2 d2 m2]) simp_all
  show ?case
  proof (cases "get_attributes_for_further_examination parent module")
    case (Inl err)
    with Cons.prems(1) have "examine_other_modules merge examine e parents info disabled match
        module = Inr (info', disabled', match')"
      by (cases err) auto
    from this Cons.prems(2) step show ?thesis by (rule Cons.IH)
  next
    case (Inr parts)
    obtain pp pm pc where parts: "parts = (pp, pm, pc)" by (cases parts) auto
    show ?thesis
    proof (cases "find_spec e pm ([pp, dirname (path module)] @ sys_path e)")
      case None
      with Cons.prems(1) Inr parts have "examine_other_modules merge examine e parents info
          disabled match module = Inr (info', disabled', match')"
        by simp
      from this Cons.prems(2) step show ?thesis by (rule Cons.IH)
    next
      case (Some origin)
      with Cons.prems(1) Inr parts obtain i2 d2 m2 where
        ex: "examine origin pc match = Inr (i2, d2, m2)"
        and rest: "examine_other_modules merge examine e parents
            (if i2 \<noteq> [] then merge info i2 else info)
            (if i2 \<noteq> [] then disabled \<union> d2 else disabled) m2 module =
          Inr (info', disabled', match')"
        by (auto split: sum.splits if_splits)
      have "I (if i2 \<noteq> [] then merge info i2 else info)
            (if i2 \<noteq> [] then disabled \<union> d2 else disabled) m2"
        using Inr [unfolded parts] Some Cons.prems(2) ex
        by (rule Cons.prems(3) [rotated]) simp
      from rest this step show ?thesis by (rule Cons.IH)
    qed
  qed
qed

lemma same_module_loop_disabled:
  "examine_same_module_loop examine todo parents info disabled match module =
     Inr (parents', info', disabled', match') \<Longrightarrow> disabled \<subseteq> disabled'"
  by (erule same_module_loop_invariant [where I = "\<lambda>ps i d m. disabled \<subseteq> d"]) auto

lemma same_module_loop_parents:
  "examine_same_module_loop examine todo parents info disabled match module =
     Inr (parents', info', disabled', match') \<Longrightarrow> set parents' \<subseteq> set parents"
  by (erule same_module_loop_invariant [where I = "\<lambda>ps i d m. set ps \<subseteq> set parents"])
    (auto dest: notin_set_remove1)

lemma other_modules_disabled:
  "examine_other_modules merge examine e parents info disabled match module =
     Inr (info', disabled', match') \<Longrightarrow> disabled \<subseteq> disabled'"
  by (erule other_modules_invariant [where I = "\<lambda>i d m. disabled \<subseteq> d"]) auto


lemma class_loop_invariant:
  assumes "examine_class_loop examine e dm module class_name ks info disabled match =
      Inr (info', disabled', match')"
    and "I info disabled match"
    and "\<And>k i d m ps i2 d2 m2 i3 d3 m3.
      k \<in> set ks \<Longrightarrow> name k = class_name \<Longrightarrow> I i d m \<Longrightarrow>
      examine_same_module examine (bases k) (own_methods_info k) d
        (if \<not> m then dm module k (docstring k) else m) module = Inr (ps, i2, d2, m2) \<Longrightarrow>
      examine_other_modules extend_test_list examine e ps i2 d2 m2 module = Inr (i3, d3, m3) \<Longrightarrow>
      I i3 d3 m3"
  shows "I info' disabled' match'"
  using assms
proof (induction ks arbitrary: info disabled match)
  case Nil
  then show ?case by simp
next
  case (Cons k ks)
  have step: "I i3 d3 m3"
    if "k' \<in> set ks" "name k' = class_name" "I i d m"
      "examine_same_module examine (bases k') (own_methods_info k') d
        (if \<not> m then dm module k' (docstring k') else m) module = Inr (ps, i2, d2, m2)"
      "examine_other_modules extend_test_list examine e ps i2 d2 m2 module = Inr (i3, d3, m3)"
    for k' i d m ps i2 d2 m2 i3 d3 m3
    using that by (intro Cons.prems(3) [of k' i d m ps i2 d2 m2 i3 d3 m3]) simp_all
  show ?case
  proof (cases "class_name = name k")
    case False
    with Cons.prems(1) have "examine_class_loop examine e dm module class_name ks info
        disabled match = Inr (info', disabled', match')" by simp
    from this Cons.prems(2) step show ?thesis by (rule Cons.IH)
  next
    case True
    with Cons.prems(1) obtain ps i2 d2 m2 i3 d3 m3 where
      sm: "examine_same_module examine (bases k) (own_methods_info k) disabled
             (if \<not> match then dm module k (docstring k) else match) module =
           Inr (ps, i2, d2, m2)"
      and om: "examine_other_modules extend_test_list examine e ps i2 d2 m2 module =
           Inr (i3, d3, m3)"
      and rest: "examine_class_loop examine e dm module class_name ks i3 d3 m3 =
           Inr (info', disabled', match')"
      by (auto simp: Let_def split: sum.splits)
    have "I i3 d3 m3"
      using True Cons.prems(2) sm om
      by (intro Cons.prems(3) [of k info disabled match ps i2 d2 m2 i3 d3 m3]) simp_all
    from rest this step show ?thesis by (rule Cons.IH)
  qed
qed

subsection \<open>A class that is not in the file\<close>

lemma examine_class_loop_no_class:
  "class_name \<notin> name ` set ks \<Longrightarrow>
   examine_class_loop examine e dm module class_name ks info disabled match =
     Inr (info, disabled, match)"
  by (induction ks) auto

text \<open>
  C7. When the module at the path loads and none of its classes has the requested
  name, \<^verbatim>\<open>_examine_class\<close> returns the empty method list, the empty disabled set and
  the match flag it was given, and raises nothing. The call itself needs one frame
  of the recursion budget.
\<close>

theorem examine_class_no_such_class:
  assumes "PythonModule e p tm tc = Some module"
    and "class_name \<notin> name ` set (classes module)"
  shows "examine_class e (Suc depth) tm tc dm p class_name match = Inr ([], {}, match)"
  using assms by (simp add: examine_class_loop_no_class)

text \<open>
  The file of \<^verbatim>\<open>Base\<close> and \<^verbatim>\<open>Child\<close> has no class \<^verbatim>\<open>GenericTestBase\<close>: looking
  it up there gives the empty result and leaves the flag as it was.
\<close>

theorem examine_class_no_such_class_witness:
  "PythonModule (one_file inherit_module) ''/t/inherit.py'' ''avocado'' ''Test'' =
     Some inherit_module \<and>
   ''GenericTestBase'' \<notin> name ` set (classes inherit_module) \<and>
   examine_class (one_file inherit_module) (Suc 0) ''avocado'' ''Test''
     determine_match_avocado ''/t/inherit.py'' ''GenericTestBase'' True = Inr ([], {}, True)"
proof -
  have load: "PythonModule (one_file inherit_module) ''/t/inherit.py'' ''avocado'' ''Test'' =
      Some inherit_module"
    by (simp add: one_file_def inherit_module_def)
  have absent: "''GenericTestBase'' \<notin> name ` set (classes inherit_module)"
    by (simp add: inherit_module_def base_klass_def child_klass_def)
  from load absent examine_class_no_such_class [OF load absent, of 0 determine_match_avocado True]
  show ?thesis by blast
qed

subsection \<open>The match flag\<close>

lemma keeps_matchD:
  "keeps_match examine \<Longrightarrow> examine p c True = Inr (info, disabled, match) \<Longrightarrow> match"
  unfolding keeps_match_def by blast

lemma same_module_loop_keeps_match:
  assumes "keeps_match examine"
    and "examine_same_module_loop examine todo parents info disabled True module =
      Inr (parents', info', disabled', match')"
  shows "match'"
  using assms(2)
proof (rule same_module_loop_invariant [where I = "\<lambda>ps i d m. m"])
  show True ..
next
  fix c m i2 d2 m2
  assume "m" and "examine (path module) c m = Inr (i2, d2, m2)"
  with assms(1) show m2 by (auto dest: keeps_matchD)
qed

lemma other_modules_keeps_match:
  assumes "keeps_match examine"
    and "examine_other_modules merge examine e parents info disabled True module =
      Inr (info', disabled', match')"
  shows "match'"
  using assms(2)
proof (rule other_modules_invariant [where I = "\<lambda>i d m. m"])
  show True ..
next
  fix origin pc m i2 d2 m2
  assume "m" and "examine origin pc m = Inr (i2, d2, m2)"
  with assms(1) show m2 by (auto dest: keeps_matchD)
qed

lemma class_loop_keeps_match:
  assumes "keeps_match examine"
    and "examine_class_loop examine e dm module class_name ks info disabled True =
      Inr (info', disabled', match')"
  shows "match'"
  using assms(2)
proof (rule class_loop_invariant [where I = "\<lambda>i d m. m"])
  show True ..
next
  fix k d m ps i2 d2 m2 i3 d3 m3
  assume "m"
    and sm: "examine_same_module examine (bases k) (own_methods_info k) d
        (if \<not> m then dm module k (docstring k) else m) module = Inr (ps, i2, d2, m2)"
    and om: "examine_other_modules extend_test_list examine e ps i2 d2 m2 module =
        Inr (i3, d3, m3)"
  with assms(1) have m2
    by (auto simp: examine_same_module_def dest: same_module_loop_keeps_match)
  with assms(1) om show m3
    by (auto dest: other_modules_keeps_match)
qed

lemma examine_class_keeps_match:
  "keeps_match (examine_class e depth tm tc dm)"
proof (induction depth)
  case 0
  show ?case by (simp add: keeps_match_def)
next
  case (Suc depth)
  show ?case
    unfolding keeps_match_def
    using class_loop_keeps_match [OF Suc]
    by (auto split: option.splits)
qed

text \<open>
  C9. The match flag never goes back from \<open>True\<close>: \<^verbatim>\<open>_examine_class\<close> called with
  \<open>True\<close> returns \<open>True\<close>, and so do the loop over the parents of the same module and
  the loop over the parents of other modules, which pass the flag to every recursive
  call and take the flag each call returns.
\<close>

theorem match_monotone:
  "(examine_class e depth tm tc dm p class_name True = Inr (info', disabled', match')
      \<longrightarrow> match') \<and>
   (examine_same_module (examine_class e depth tm tc dm) parents info disabled True module =
      Inr (parents'', info'', disabled'', match'') \<longrightarrow> match'') \<and>
   (examine_other_modules merge (examine_class e depth tm tc dm) e parents info disabled True
      module = Inr (info3, disabled3, match3) \<longrightarrow> match3)"
  using examine_class_keeps_match [of e depth tm tc dm]
  by (auto simp: examine_same_module_def
      dest: keeps_matchD same_module_loop_keeps_match other_modules_keeps_match)

text \<open>
  \<^verbatim>\<open>Child\<close> examined with the flag already \<open>True\<close>: the flag passes through the
  recursion into \<^verbatim>\<open>Base\<close> and the lookup of \<^verbatim>\<open>GenericTestBase\<close> and comes back
  \<open>True\<close>.
\<close>

theorem match_monotone_witness:
  "examine_class (one_file inherit_module) 3 ''avocado'' ''Test'' determine_match_avocado
     ''/t/inherit.py'' ''Child'' True =
     Inr ([(''test_b'', {}, []), (''test_a'', {}, [])], {}, True)"
  using match_monotone [where e = "one_file inherit_module" and depth = 3
      and tm = "''avocado''" and tc = "''Test''" and dm = determine_match_avocado
      and p = "''/t/inherit.py''" and class_name = "''Child''"
      and info' = "[(''test_b'', {}, []), (''test_a'', {}, [])]" and disabled' = "{}"
      and match' = True]
  by (simp add: model_simps inherit_module_def base_klass_def child_klass_def
      numeral_3_eq_3)

subsection \<open>One class of the driver, and the driver's loop\<close>

lemma set_update_subset: "set (AList.update k v al) \<subseteq> insert (k, v) (set al)"
  by (induction al) auto

lemma klass_step_cases:
  assumes "find_python_tests_klass e depth tm tc dm module k (result, disabled) =
      Inr (result', disabled')"
  obtains
    (disabled) "disable (docstring k)" "result' = result"
      "disabled' = insert (name k) disabled"
  | (enabled) "\<not> disable (docstring k)" "enable (docstring k)"
      "result' = AList.update (name k) (own_methods_info k) result" "disabled' = disabled"
  | (examined) parents info2 disabled2 match2 info3 match3 where
      "\<not> disable (docstring k)" "\<not> enable (docstring k)"
      "examine_same_module (examine_class e depth tm tc dm) (bases k) (own_methods_info k)
         disabled (if recursive (docstring k) then True else is_matching_klass module k)
         module = Inr (parents, info2, disabled2, match2)"
      "examine_other_modules (@) (examine_class e depth tm tc dm) e parents info2 disabled2
         match2 module = Inr (info3, disabled', match3)"
      "result' = (if match3 then AList.update (name k) info3 result else result)"
  using assms
  unfolding find_python_tests_klass_def
  by (auto simp: check_docstring_directive_simps Let_def split: if_splits sum.splits)

lemma klass_step_disabled:
  assumes "find_python_tests_klass e depth tm tc dm module k (result, disabled) =
      Inr (result', disabled')"
  shows "disabled \<subseteq> disabled'" and "disable (docstring k) \<Longrightarrow> name k \<in> disabled'"
  using assms
  by (cases rule: klass_step_cases;
      auto simp: examine_same_module_def
        dest!: same_module_loop_disabled other_modules_disabled)+

lemma klass_step_keys:
  assumes "find_python_tests_klass e depth tm tc dm module k (result, disabled) =
      Inr (result', disabled')"
  shows "fst ` set result' \<subseteq> fst ` set result \<union> (if disable (docstring k) then {} else {name k})"
  using assms
  by (cases rule: klass_step_cases) (auto simp: dom_update)

lemma klass_step_other_key:
  assumes "find_python_tests_klass e depth tm tc dm module k (result, disabled) =
      Inr (result', disabled')"
    and "key \<noteq> name k"
  shows "map_of result' key = map_of result key"
  using assms
  by (cases rule: klass_step_cases) (auto simp: update_conv')

lemma loop_disabled:
  "find_python_tests_loop e depth tm tc dm module ks (result, disabled) =
     Inr (result', disabled') \<Longrightarrow>
   disabled \<subseteq> disabled' \<and> (\<forall>k\<in>set ks. disable (docstring k) \<longrightarrow> name k \<in> disabled')"
proof (induction ks arbitrary: result disabled)
  case Nil
  then show ?case by simp
next
  case (Cons k ks)
  from Cons.prems obtain r d where
    step: "find_python_tests_klass e depth tm tc dm module k (result, disabled) = Inr (r, d)"
    and rest: "find_python_tests_loop e depth tm tc dm module ks (r, d) =
      Inr (result', disabled')"
    by (auto split: sum.splits)
  from Cons.IH [OF rest] klass_step_disabled [OF step] show ?case by auto
qed

lemma loop_keys:
  "find_python_tests_loop e depth tm tc dm module ks (result, disabled) =
     Inr (result', disabled') \<Longrightarrow> key \<in> fst ` set result' \<Longrightarrow>
   key \<in> fst ` set result \<or> (\<exists>k\<in>set ks. name k = key \<and> \<not> disable (docstring k))"
proof (induction ks arbitrary: result disabled)
  case Nil
  then show ?case by simp
next
  case (Cons k ks)
  from Cons.prems(1) obtain r d where
    step: "find_python_tests_klass e depth tm tc dm module k (result, disabled) = Inr (r, d)"
    and rest: "find_python_tests_loop e depth tm tc dm module ks (r, d) =
      Inr (result', disabled')"
    by (auto split: sum.splits)
  from Cons.IH [OF rest Cons.prems(2)] consider
    "key \<in> fst ` set r" | "\<exists>k\<in>set ks. name k = key \<and> \<not> disable (docstring k)"
    by blast
  then show ?case
  proof cases
    case 1
    with klass_step_keys [OF step] have
      "key \<in> fst ` set result \<or> (key = name k \<and> \<not> disable (docstring k))"
      by (auto split: if_splits)
    then show ?thesis by auto
  next
    case 2
    then show ?thesis by auto
  qed
qed

lemma loop_other_keys:
  "find_python_tests_loop e depth tm tc dm module ks (result, disabled) =
     Inr (result', disabled') \<Longrightarrow> key \<notin> name ` set ks \<Longrightarrow>
   map_of result' key = map_of result key"
proof (induction ks arbitrary: result disabled)
  case Nil
  then show ?case by simp
next
  case (Cons k ks)
  from Cons.prems(1) obtain r d where
    step: "find_python_tests_klass e depth tm tc dm module k (result, disabled) = Inr (r, d)"
    and rest: "find_python_tests_loop e depth tm tc dm module ks (r, d) =
      Inr (result', disabled')"
    by (auto split: sum.splits)
  from Cons.IH [OF rest] klass_step_other_key [OF step, of key] Cons.prems(2)
  show ?case by auto
qed

lemma loop_append:
  "find_python_tests_loop e depth tm tc dm module (ks @ ks') st =
     (case find_python_tests_loop e depth tm tc dm module ks st of
        Inl err \<Rightarrow> Inl err
      | Inr st' \<Rightarrow> find_python_tests_loop e depth tm tc dm module ks' st')"
  by (induction ks arbitrary: st) (auto split: sum.splits)


subsection \<open>Where the tags of an entry come from\<close>

lemma extend_test_list_append:
  "\<exists>added. extend_test_list current new = current @ added \<and> set added \<subseteq> set new"
proof (induction new arbitrary: current)
  case Nil
  then show ?case by simp
next
  case (Cons test new)
  show ?case
  proof (cases "fst test \<notin> set (map fst current)")
    case True
    from Cons.IH [of "current @ [test]"] obtain added where
      "extend_test_list (current @ [test]) new = (current @ [test]) @ added"
      "set added \<subseteq> set new" by blast
    with True have "extend_test_list current (test # new) = current @ (test # added) \<and>
        set (test # added) \<subseteq> set (test # new)" by auto
    then show ?thesis by blast
  next
    case False
    from Cons.IH [of current] obtain added where
      "extend_test_list current new = current @ added" "set added \<subseteq> set new" by blast
    with False have "extend_test_list current (test # new) = current @ added \<and>
        set added \<subseteq> set (test # new)" by auto
    then show ?thesis by blast
  qed
qed

lemma own_methods_declared_at:
  assumes "PythonModule e p tm tc = Some module" and "k \<in> set (classes module)"
    and "x \<in> set (own_methods_info k)"
  shows "declared_at e tm tc (p, name k) x"
  using get_methods_info_entries [OF assms(3)] assms(1,2)
  unfolding declared_at_def get_docstring_directives_tags_def
    get_docstring_directives_requirements_def
  by auto

lemma inherited_from_start:
  "declared_at e tm tc pc x \<Longrightarrow> inherited_from e tm tc pc x"
  unfolding inherited_from_def by blast

lemma inherited_from_reference:
  assumes "r \<in> set (references e tm tc pc)" and "inherited_from e tm tc r x"
  shows "inherited_from e tm tc pc x"
proof -
  from assms(2) obtain pc' where
    "(r, pc') \<in> (reference_rel e tm tc)\<^sup>*" "declared_at e tm tc pc' x"
    unfolding inherited_from_def by blast
  moreover from assms(1) have "(pc, r) \<in> reference_rel e tm tc"
    by (simp add: reference_rel_def)
  ultimately show ?thesis
    unfolding inherited_from_def by (blast intro: converse_rtrancl_into_rtrancl)
qed

lemma parent_references_same_module:
  "(path module, c) \<in> set (parent_references e module (Name c))"
  by (simp add: parent_references_def)

lemma parent_references_other_module:
  "get_attributes_for_further_examination parent module = Inr (pp, pm, pc) \<Longrightarrow>
   find_spec e pm ([pp, dirname (path module)] @ sys_path e) = Some origin \<Longrightarrow>
   (origin, pc) \<in> set (parent_references e module parent)"
  by (simp add: parent_references_def)

lemma references_of_class:
  "PythonModule e p tm tc = Some module \<Longrightarrow> k \<in> set (classes module) \<Longrightarrow>
   parent \<in> set (bases k) \<Longrightarrow> r \<in> set (parent_references e module parent) \<Longrightarrow>
   r \<in> set (references e tm tc (p, name k))"
  by (auto simp: references_def)

text \<open>What the two loops over the parents add comes from the parents.\<close>

lemma same_module_from_parents:
  assumes "examine_same_module examine parents info disabled match module =
      Inr (parents', info', disabled', match')"
    and "\<And>c m i d m'. Name c \<in> set parents \<Longrightarrow> examine (path module) c m = Inr (i, d, m') \<Longrightarrow>
      \<forall>x\<in>set i. inherited_from e tm tc (path module, c) x"
  shows "\<exists>added. info' = info @ added \<and>
    (\<forall>x\<in>set added. from_parents e tm tc module parents x)"
  using assms(1) [unfolded examine_same_module_def]
proof (rule same_module_loop_invariant [where I = "\<lambda>ps i d m. \<exists>added. i = info @ added \<and>
    (\<forall>x\<in>set added. from_parents e tm tc module parents x)"])
  show "\<exists>added. info = info @ added \<and>
    (\<forall>x\<in>set added. from_parents e tm tc module parents x)" by simp
next
  fix c i m i2 d2 m2
  assume c: "Name c \<in> set parents"
    and inv: "\<exists>added. i = info @ added \<and>
      (\<forall>x\<in>set added. from_parents e tm tc module parents x)"
    and ex: "examine (path module) c m = Inr (i2, d2, m2)"
  from inv obtain added where added: "i = info @ added"
    "\<forall>x\<in>set added. from_parents e tm tc module parents x" by blast
  from extend_test_list_append [of i i2] obtain more where
    more: "extend_test_list i i2 = i @ more" "set more \<subseteq> set i2" by blast
  from assms(2) [OF c ex] c have "\<forall>x\<in>set i2. from_parents e tm tc module parents x"
    unfolding from_parents_def using parent_references_same_module by blast
  with more(2) have "\<forall>x\<in>set more. from_parents e tm tc module parents x" by blast
  with added more(1) have "extend_test_list i i2 = info @ (added @ more) \<and>
      (\<forall>x\<in>set (added @ more). from_parents e tm tc module parents x)" by auto
  then have "\<exists>added. extend_test_list i i2 = info @ added \<and>
      (\<forall>x\<in>set added. from_parents e tm tc module parents x)" by blast
  with inv show "\<exists>added. (if i2 \<noteq> [] then extend_test_list i i2 else i) = info @ added \<and>
      (\<forall>x\<in>set added. from_parents e tm tc module parents x)" by simp
qed

lemma other_modules_from_parents:
  assumes "examine_other_modules merge examine e parents info disabled match module =
      Inr (info', disabled', match')"
    and "\<And>origin c m i d m'. examine origin c m = Inr (i, d, m') \<Longrightarrow>
      \<forall>x\<in>set i. inherited_from e tm tc (origin, c) x"
    and "\<And>a b. \<exists>added. merge a b = a @ added \<and> set added \<subseteq> set b"
  shows "\<exists>added. info' = info @ added \<and>
    (\<forall>x\<in>set added. from_parents e tm tc module parents x)"
  using assms(1)
proof (rule other_modules_invariant [where I = "\<lambda>i d m. \<exists>added. i = info @ added \<and>
    (\<forall>x\<in>set added. from_parents e tm tc module parents x)"])
  show "\<exists>added. info = info @ added \<and>
    (\<forall>x\<in>set added. from_parents e tm tc module parents x)" by simp
next
  fix parent pp pm pc origin i m i2 d2 m2
  assume parent: "parent \<in> set parents"
    and attrs: "get_attributes_for_further_examination parent module = Inr (pp, pm, pc)"
    and found: "find_spec e pm ([pp, dirname (path module)] @ sys_path e) = Some origin"
    and inv: "\<exists>added. i = info @ added \<and>
      (\<forall>x\<in>set added. from_parents e tm tc module parents x)"
    and ex: "examine origin pc m = Inr (i2, d2, m2)"
  from inv obtain added where added: "i = info @ added"
    "\<forall>x\<in>set added. from_parents e tm tc module parents x" by blast
  from assms(3) [of i i2] obtain more where
    more: "merge i i2 = i @ more" "set more \<subseteq> set i2" by blast
  from assms(2) [OF ex] parent parent_references_other_module [OF attrs found]
  have "\<forall>x\<in>set i2. from_parents e tm tc module parents x"
    unfolding from_parents_def by blast
  with more(2) have "\<forall>x\<in>set more. from_parents e tm tc module parents x" by blast
  with added more(1) have "merge i i2 = info @ (added @ more) \<and>
      (\<forall>x\<in>set (added @ more). from_parents e tm tc module parents x)" by auto
  then have "\<exists>added. merge i i2 = info @ added \<and>
      (\<forall>x\<in>set added. from_parents e tm tc module parents x)" by blast
  with inv show "\<exists>added. (if i2 \<noteq> [] then merge i i2 else i) = info @ added \<and>
      (\<forall>x\<in>set added. from_parents e tm tc module parents x)" by simp
qed

lemma from_parents_mono:
  "set ps \<subseteq> set parents \<Longrightarrow> from_parents e tm tc module ps x \<Longrightarrow>
   from_parents e tm tc module parents x"
  unfolding from_parents_def by blast

lemma from_parents_inherited:
  assumes "PythonModule e p tm tc = Some module" and "k \<in> set (classes module)"
    and "from_parents e tm tc module (bases k) x"
  shows "inherited_from e tm tc (p, name k) x"
  using assms references_of_class [OF assms(1,2)]
  unfolding from_parents_def by (blast intro: inherited_from_reference)

lemma examine_class_inherited:
  "examine_class e depth tm tc dm p c match = Inr (info, disabled, match') \<Longrightarrow>
   \<forall>x\<in>set info. inherited_from e tm tc (p, c) x"
proof (induction depth arbitrary: p c match info disabled match')
  case 0
  then show ?case by simp
next
  case (Suc depth)
  let ?examine = "examine_class e depth tm tc dm"
  from Suc.prems obtain module where
    load: "PythonModule e p tm tc = Some module"
    and loop: "examine_class_loop ?examine e dm module c (classes module) [] {} match =
        Inr (info, disabled, match')"
    by (auto split: option.splits)
  from loop show ?case
  proof (rule class_loop_invariant
      [where I = "\<lambda>i d m. \<forall>x\<in>set i. inherited_from e tm tc (p, c) x"])
    show "\<forall>x\<in>set []. inherited_from e tm tc (p, c) x" by simp
  next
    fix k d m ps i2 d2 m2 i3 d3 m3
    assume k: "k \<in> set (classes module)" and c: "name k = c"
      and sm: "examine_same_module ?examine (bases k) (own_methods_info k) d
          (if \<not> m then dm module k (docstring k) else m) module = Inr (ps, i2, d2, m2)"
      and om: "examine_other_modules extend_test_list ?examine e ps i2 d2 m2 module =
          Inr (i3, d3, m3)"
    have own: "\<forall>x\<in>set (own_methods_info k). inherited_from e tm tc (p, c) x"
      using own_methods_declared_at [OF load k] c by (auto intro: inherited_from_start)
    from sm have ps: "set ps \<subseteq> set (bases k)"
      by (auto simp: examine_same_module_def dest: same_module_loop_parents)
    from same_module_from_parents [OF sm, of e tm tc] Suc.IH obtain added where
      added: "i2 = own_methods_info k @ added"
      "\<forall>x\<in>set added. from_parents e tm tc module (bases k) x" by blast
    from other_modules_from_parents [OF om, of tm tc] Suc.IH extend_test_list_append
    obtain more where
      more: "i3 = i2 @ more" "\<forall>x\<in>set more. from_parents e tm tc module ps x" by blast
    from more(2) ps have "\<forall>x\<in>set more. from_parents e tm tc module (bases k) x"
      by (blast intro: from_parents_mono)
    with added(2) from_parents_inherited [OF load k] c
    have "\<forall>x\<in>set (added @ more). inherited_from e tm tc (p, c) x" by auto
    with own added(1) more(1) show "\<forall>x\<in>set i3. inherited_from e tm tc (p, c) x" by auto
  qed
qed

lemma first_definition_here:
  "first_definition (FunctionDef n doc # statement_body) n doc"
  unfolding first_definition_def by (rule exI [of _ "[]"]) simp

lemma first_definition_later:
  assumes "first_definition statement_body n doc" and "\<And>doc'. st \<noteq> FunctionDef n doc'"
  shows "first_definition (st # statement_body) n doc"
proof -
  from assms(1) obtain before after where
    "statement_body = before @ FunctionDef n doc # after"
    "\<forall>doc'. FunctionDef n doc' \<notin> set before"
    unfolding first_definition_def by blast
  with assms(2) have "st # statement_body = (st # before) @ FunctionDef n doc # after \<and>
      (\<forall>doc'. FunctionDef n doc' \<notin> set (st # before))" by auto
  then show ?thesis unfolding first_definition_def by blast
qed

lemma get_methods_info_loop_first:
  "x \<in> set (get_methods_info_loop statement_body ct cr acc) \<Longrightarrow>
   x \<in> set acc \<or>
   (fst x \<notin> fst ` set acc \<and> startswith (fst x) ''test'' \<and>
    (\<exists>doc. first_definition statement_body (fst x) doc \<and>
       x = (fst x, tags doc \<union> ct, requirements doc @ cr)))"
proof (induction statement_body arbitrary: acc)
  case Nil
  then show ?case by simp
next
  case (Cons st statement_body)
  let ?found = "\<lambda>body acc. fst x \<notin> fst ` set acc \<and> startswith (fst x) ''test'' \<and>
    (\<exists>doc. first_definition body (fst x) doc \<and>
       x = (fst x, tags doc \<union> ct, requirements doc @ cr))"
  show ?case
  proof (cases st)
    case OtherStmt
    with Cons.prems have "x \<in> set (get_methods_info_loop statement_body ct cr acc)" by simp
    from Cons.IH [OF this] OtherStmt show ?thesis
      by (auto intro: first_definition_later)
  next
    case (FunctionDef n doc)
    let ?new = "(n, tags doc \<union> ct, requirements doc @ cr)"
    consider (skip) "\<not> startswith n ''test''"
      | (seen) "startswith n ''test''" "n \<in> fst ` set acc"
      | (new) "startswith n ''test''" "n \<notin> fst ` set acc"
      by blast
    then show ?thesis
    proof cases
      case skip
      with Cons.prems FunctionDef have
        "x \<in> set (get_methods_info_loop statement_body ct cr acc)" by simp
      from Cons.IH [OF this] consider "x \<in> set acc" | "?found statement_body acc" by blast
      then show ?thesis
      proof cases
        case 2
        with skip have "fst x \<noteq> n" by auto
        with 2 FunctionDef have "?found (st # statement_body) acc"
          by (auto intro: first_definition_later)
        then show ?thesis by blast
      qed simp
    next
      case seen
      with Cons.prems FunctionDef have
        "x \<in> set (get_methods_info_loop statement_body ct cr acc)" by (simp add: Let_def)
      from Cons.IH [OF this] consider "x \<in> set acc" | "?found statement_body acc" by blast
      then show ?thesis
      proof cases
        case 2
        with seen have "fst x \<noteq> n" by auto
        with 2 FunctionDef have "?found (st # statement_body) acc"
          by (auto intro: first_definition_later)
        then show ?thesis by blast
      qed simp
    next
      case new
      with Cons.prems FunctionDef have
        "x \<in> set (get_methods_info_loop statement_body ct cr (acc @ [?new]))"
        by (simp add: Let_def get_docstring_directives_tags_def
            get_docstring_directives_requirements_def)
      from Cons.IH [OF this] consider "x \<in> set acc" | "x = ?new"
        | "?found statement_body (acc @ [?new])" by auto
      then show ?thesis
      proof cases
        case 2
        with new FunctionDef have "?found (st # statement_body) acc"
          by (auto intro: first_definition_here)
        then show ?thesis by blast
      next
        case 3
        then have "fst x \<noteq> n" by auto
        with 3 FunctionDef have "?found (st # statement_body) acc"
          by (auto intro: first_definition_later)
        then show ?thesis by blast
      qed simp
    qed
  qed
qed

lemma own_methods_first:
  assumes "x \<in> set (own_methods_info k)"
  shows "\<exists>doc. first_definition (body k) (fst x) doc \<and>
    x = (fst x, tags doc \<union> tags (docstring k),
         requirements doc @ requirements (docstring k))"
  using get_methods_info_loop_first [of x "body k" "tags (docstring k)"
      "requirements (docstring k)" "[]"] assms
  by (auto simp: get_methods_info_def get_docstring_directives_tags_def
      get_docstring_directives_requirements_def)

lemma klass_step_recorded:
  assumes "find_python_tests_klass e depth tm tc dm module k (result, disabled) =
      Inr (result', disabled')"
    and "k \<in> set (classes module)"
    and "\<forall>(c, info)\<in>set result. recorded e tm tc module c info"
  shows "\<forall>(c, info)\<in>set result'. recorded e tm tc module c info"
  using assms(1)
proof (cases rule: klass_step_cases)
  case disabled
  with assms(3) show ?thesis by simp
next
  case enabled
  have "recorded e tm tc module (name k) (own_methods_info k)"
    unfolding recorded_def using assms(2) by (intro bexI [of _ k]) auto
  with enabled assms(3) set_update_subset [of "name k" "own_methods_info k" result]
  show ?thesis by fastforce
next
  case (examined parents info2 disabled2 match2 info3 match3)
  from examined(3) have ps: "set parents \<subseteq> set (bases k)"
    by (auto simp: examine_same_module_def dest: same_module_loop_parents)
  from same_module_from_parents [OF examined(3), of e tm tc] examine_class_inherited
  obtain added where
    added: "info2 = own_methods_info k @ added"
    "\<forall>x\<in>set added. from_parents e tm tc module (bases k) x" by blast
  have "\<exists>added. a @ b = a @ added \<and> set added \<subseteq> set b" for a b :: "method_info list"
    by blast
  from other_modules_from_parents [OF examined(4), of tm tc] examine_class_inherited this
  obtain more where
    more: "info3 = info2 @ more" "\<forall>x\<in>set more. from_parents e tm tc module parents x"
    by blast
  from more(2) ps have "\<forall>x\<in>set more. from_parents e tm tc module (bases k) x"
    by (blast intro: from_parents_mono)
  with added more(1) have "info3 = own_methods_info k @ (added @ more) \<and>
      (\<forall>x\<in>set (added @ more). from_parents e tm tc module (bases k) x)" by auto
  then have "recorded e tm tc module (name k) info3"
    unfolding recorded_def using assms(2) by (intro bexI [of _ k]) blast+
  with examined(5) assms(3) set_update_subset [of "name k" info3 result]
  show ?thesis by (fastforce split: if_splits)
qed

lemma loop_recorded:
  "find_python_tests_loop e depth tm tc dm module ks (result, disabled) =
     Inr (result', disabled') \<Longrightarrow>
   set ks \<subseteq> set (classes module) \<Longrightarrow>
   \<forall>(c, info)\<in>set result. recorded e tm tc module c info \<Longrightarrow>
   \<forall>(c, info)\<in>set result'. recorded e tm tc module c info"
proof (induction ks arbitrary: result disabled)
  case Nil
  then show ?case by simp
next
  case (Cons k ks)
  from Cons.prems(1) obtain r d where
    step: "find_python_tests_klass e depth tm tc dm module k (result, disabled) = Inr (r, d)"
    and rest: "find_python_tests_loop e depth tm tc dm module ks (r, d) =
      Inr (result', disabled')"
    by (auto split: sum.splits)
  from Cons.prems(2) have k: "k \<in> set (classes module)" and ks: "set ks \<subseteq> set (classes module)"
    by auto
  from klass_step_recorded [OF step k Cons.prems(3)]
  have "\<forall>(c, info)\<in>set r. recorded e tm tc module c info" .
  from Cons.IH [OF rest ks this] show ?case .
qed

text \<open>
  C3, as the code has it. The list recorded for a class starts with the class's own
  methods: each of these entries carries the tags of the first \<^verbatim>\<open>def\<close> of that name
  in the class body together with the class-level tags of the class itself, and
  nothing else. Every entry after them is declared at a class reached through the
  base references of the class, and carries the tags of that method together with
  the class-level tags of the class that declares it, and nothing else. So the tag
  set of an entry is a superset of the method's own tags and of the class-level tags
  of the declaring class; the class-level tags of the other classes of the
  inheritance chain are not added.
\<close>

theorem entry_tags_of_declaring_class:
  assumes "find_python_tests e depth tm tc dm p = Inr (result, disabled)"
    and "(class_name, info) \<in> set result"
  shows "\<exists>module k inherited.
      PythonModule e p tm tc = Some module \<and> k \<in> set (classes module) \<and>
      name k = class_name \<and> info = own_methods_info k @ inherited \<and>
      (\<forall>x\<in>set (own_methods_info k). \<exists>doc.
          first_definition (body k) (fst x) doc \<and>
          x = (fst x, tags doc \<union> tags (docstring k),
               requirements doc @ requirements (docstring k))) \<and>
      (\<forall>x\<in>set inherited. \<exists>parent\<in>set (bases k).
          \<exists>r\<in>set (parent_references e module parent). \<exists>pc.
            (r, pc) \<in> (reference_rel e tm tc)\<^sup>* \<and>
            (\<exists>module' k' doc.
               PythonModule e (fst pc) tm tc = Some module' \<and> k' \<in> set (classes module') \<and>
               name k' = snd pc \<and> FunctionDef (fst x) doc \<in> set (body k') \<and>
               x = (fst x, tags doc \<union> tags (docstring k'),
                    requirements doc @ requirements (docstring k'))))"
proof -
  from assms(1) obtain module where
    load: "PythonModule e p tm tc = Some module"
    and loop: "find_python_tests_loop e depth tm tc dm module (classes module) ([], {}) =
      Inr (result, disabled)"
    by (auto simp: find_python_tests_def split: option.splits)
  from loop_recorded [OF loop] assms(2)
  have "recorded e tm tc module class_name info" by fastforce
  then obtain k inherited where
    k: "k \<in> set (classes module)" "name k = class_name"
    and info: "info = own_methods_info k @ inherited"
    and inherited: "\<forall>x\<in>set inherited. from_parents e tm tc module (bases k) x"
    unfolding recorded_def by blast
  have own: "\<forall>x\<in>set (own_methods_info k). \<exists>doc.
          first_definition (body k) (fst x) doc \<and>
          x = (fst x, tags doc \<union> tags (docstring k),
               requirements doc @ requirements (docstring k))"
    using own_methods_first by blast
  note inherited [unfolded from_parents_def inherited_from_def declared_at_def]
  with load k info own show ?thesis
    by - (rule exI [of _ module], rule exI [of _ k], rule exI [of _ inherited],
        intro conjI, assumption+)
qed

text \<open>
  \<^verbatim>\<open>Child\<close> overrides \<^verbatim>\<open>test_a\<close> and inherits \<^verbatim>\<open>test_c\<close>: its own \<^verbatim>\<open>test_a\<close> comes
  first with the tags \<^verbatim>\<open>child\<close> and \<^verbatim>\<open>fast\<close>, none of \<^verbatim>\<open>Base\<close>; the inherited
  \<^verbatim>\<open>test_c\<close> follows with the tag \<^verbatim>\<open>slow\<close> of \<^verbatim>\<open>Base\<close>, not \<^verbatim>\<open>fast\<close>.
\<close>

theorem entry_tags_of_declaring_class_witness:
  "find_python_tests (one_file tagged_override_module) 2 ''avocado'' ''Test''
     determine_match_avocado ''/t/tagged_override.py'' =
     Inr ([(''Base'', [(''test_a'', {''net'', ''slow''}, []), (''test_c'', {''slow''}, [])]),
           (''Child'', [(''test_a'', {''child'', ''fast''}, []), (''test_c'', {''slow''}, [])])],
          {}) \<and>
   own_methods_info tagged_override_klass = [(''test_a'', {''child'', ''fast''}, [])] \<and>
   (\<exists>module k inherited.
      PythonModule (one_file tagged_override_module) ''/t/tagged_override.py''
        ''avocado'' ''Test'' = Some module \<and>
      k \<in> set (classes module) \<and> name k = ''Child'' \<and>
      [(''test_a'', {''child'', ''fast''}, []), (''test_c'', {''slow''}, [])] =
        own_methods_info k @ inherited \<and>
      (\<forall>x\<in>set (own_methods_info k). \<exists>doc.
          first_definition (body k) (fst x) doc \<and>
          x = (fst x, tags doc \<union> tags (docstring k),
               requirements doc @ requirements (docstring k))) \<and>
      (\<forall>x\<in>set inherited. \<exists>parent\<in>set (bases k).
          \<exists>r\<in>set (parent_references (one_file tagged_override_module) module parent). \<exists>pc.
            (r, pc) \<in> (reference_rel (one_file tagged_override_module) ''avocado'' ''Test'')\<^sup>* \<and>
            (\<exists>module' k' doc.
               PythonModule (one_file tagged_override_module) (fst pc) ''avocado'' ''Test'' =
                 Some module' \<and>
               k' \<in> set (classes module') \<and> name k' = snd pc \<and>
               FunctionDef (fst x) doc \<in> set (body k') \<and>
               x = (fst x, tags doc \<union> tags (docstring k'),
                    requirements doc @ requirements (docstring k')))))"
proof -
  let ?own = "[(''test_a'', {''child'', ''fast''}, [])] :: method_info list"
  let ?info = "[(''test_a'', {''child'', ''fast''}, []), (''test_c'', {''slow''}, [])] ::
    method_info list"
  let ?result = "[(''Base'', [(''test_a'', {''net'', ''slow''}, []),
                             (''test_c'', {''slow''}, [])]),
                  (''Child'', ?info)] :: (string \<times> method_info list) list"
  have run: "find_python_tests (one_file tagged_override_module) 2 ''avocado'' ''Test''
      determine_match_avocado ''/t/tagged_override.py'' = Inr (?result, {})"
    by (simp add: model_simps tagged_override_module_def tagged_parent_klass_def
        tagged_override_klass_def numeral_2_eq_2 insert_commute)
  have listed: "(''Child'', ?info) \<in> set ?result" by simp
  have own: "own_methods_info tagged_override_klass = ?own"
    by (simp add: model_simps tagged_override_klass_def insert_commute)
  from run own entry_tags_of_declaring_class [OF run listed]
  show ?thesis by (intro conjI)
qed

text \<open>
  C3 as stated fails on the same file: \<^verbatim>\<open>Base\<close> is a resolved ancestor of \<^verbatim>\<open>Child\<close>
  and has the class-level tag \<^verbatim>\<open>slow\<close>, and the entry \<^verbatim>\<open>test_b\<close> of \<^verbatim>\<open>Child\<close> has
  no tag at all.
\<close>

theorem ancestor_class_tags_counterexample:
  "find_avocado_tests (one_file tagged_module) 2 ''/t/tagged.py'' =
     Inr ([(''Base'', [(''test_a'', {''net'', ''slow''}, [])]),
           (''Child'', [(''test_b'', {}, []), (''test_a'', {''net'', ''slow''}, [])])], {}) \<and>
   Name (name tagged_base_klass) \<in> set (bases child_klass) \<and>
   \<not> tags (docstring tagged_base_klass) \<subseteq> {}"
  by (simp add: model_simps tagged_module_def tagged_base_klass_def child_klass_def
      numeral_2_eq_2 insert_commute)

subsection \<open>Classes with a directive\<close>

text \<open>
  C4, as the code has it. A top-level class with \<^verbatim>\<open>enable\<close> and without
  \<^verbatim>\<open>disable\<close>, which no later class of the file redefines under the same name, is
  recorded in the result with the method list computed from its own body: the entries
  are the test-prefixed methods it declares, each with the union of the method's and
  the class's docstring tags. Recording it takes no call of \<^verbatim>\<open>_examine_class\<close>: the
  step for this class succeeds with a recursion budget of zero, whatever its bases
  are.
\<close>

theorem enabled_class_records_own_methods:
  assumes "find_python_tests e depth tm tc dm p = Inr (result, disabled)"
    and "PythonModule e p tm tc = Some module"
    and "classes module = before @ k # after"
    and "enable (docstring k)" and "\<not> disable (docstring k)"
    and "name k \<notin> name ` set after"
  shows "map_of result (name k) = Some (own_methods_info k) \<and>
    (\<forall>x\<in>set (own_methods_info k). \<exists>doc.
        FunctionDef (fst x) doc \<in> set (body k) \<and> startswith (fst x) ''test'' \<and>
        x = (fst x, tags doc \<union> tags (docstring k),
             requirements doc @ requirements (docstring k))) \<and>
    fst ` set (own_methods_info k) =
      {n. \<exists>doc. FunctionDef n doc \<in> set (body k) \<and> startswith n ''test''} \<and>
    find_python_tests_klass e 0 tm tc dm module k (result0, disabled0) =
      Inr (AList.update (name k) (own_methods_info k) result0, disabled0)"
proof -
  from assms(1,2,3) have "find_python_tests_loop e depth tm tc dm module (before @ k # after)
      ([], {}) = Inr (result, disabled)"
    by (simp add: find_python_tests_def)
  then obtain r1 d1 r2 d2 where
    "find_python_tests_klass e depth tm tc dm module k (r1, d1) = Inr (r2, d2)"
    and rest: "find_python_tests_loop e depth tm tc dm module after (r2, d2) =
      Inr (result, disabled)"
    by (auto simp: loop_append split: sum.splits)
  then have "r2 = AList.update (name k) (own_methods_info k) r1"
    using assms(4,5) by (cases rule: klass_step_cases) auto
  with loop_other_keys [OF rest assms(6)]
  have recorded: "map_of result (name k) = Some (own_methods_info k)"
    by (simp add: update_conv')
  have own: "\<forall>x\<in>set (own_methods_info k). \<exists>doc.
        FunctionDef (fst x) doc \<in> set (body k) \<and> startswith (fst x) ''test'' \<and>
        x = (fst x, tags doc \<union> tags (docstring k),
             requirements doc @ requirements (docstring k))"
    using get_methods_info_entries [of _ "body k" "tags (docstring k)"
        "requirements (docstring k)"]
    by (auto simp: get_docstring_directives_tags_def get_docstring_directives_requirements_def)
  have names: "fst ` set (own_methods_info k) =
      {n. \<exists>doc. FunctionDef n doc \<in> set (body k) \<and> startswith n ''test''}"
    by (rule get_methods_info_names)
  have step: "find_python_tests_klass e 0 tm tc dm module k (result0, disabled0) =
      Inr (AList.update (name k) (own_methods_info k) result0, disabled0)"
    using assms(4,5)
    by (simp add: find_python_tests_klass_def check_docstring_directive_simps)
  from recorded own names step show ?thesis by blast
qed

text \<open>
  \<^verbatim>\<open>Enabled\<close> has the parent \<^verbatim>\<open>Base\<close> in the same file, and \<^verbatim>\<open>Base\<close> declares
  \<^verbatim>\<open>test_a\<close>: the entry of \<^verbatim>\<open>Enabled\<close> holds \<^verbatim>\<open>test_own\<close> only, neither the
  inherited \<^verbatim>\<open>test_a\<close> nor the method \<^verbatim>\<open>helper\<close>.
\<close>

theorem enabled_class_records_own_methods_witness:
  "find_avocado_tests (one_file enabled_module) 1 ''/t/enabled.py'' =
     Inr ([(''Base'', [(''test_a'', {}, [])]),
           (''Enabled'', [(''test_own'', {''net'', ''fast''}, [])])], {}) \<and>
   classes enabled_module = [base_klass] @ enabled_klass # [] \<and>
   enable (docstring enabled_klass) \<and> \<not> disable (docstring enabled_klass) \<and>
   map_of [(''Base'', [(''test_a'', {}, [])]),
           (''Enabled'', [(''test_own'', {''net'', ''fast''}, [])])] (name enabled_klass) =
     Some ([(''test_own'', {''net'', ''fast''}, [])] :: method_info list) \<and>
   own_methods_info enabled_klass = [(''test_own'', {''net'', ''fast''}, [])]"
proof -
  let ?own = "[(''test_own'', {''net'', ''fast''}, [])] :: method_info list"
  let ?result = "[(''Base'', [(''test_a'', {}, [])]), (''Enabled'', ?own)] ::
    (string \<times> method_info list) list"
  have run: "find_python_tests (one_file enabled_module) 1 ''avocado'' ''Test''
      determine_match_avocado ''/t/enabled.py'' = Inr (?result, {})"
    by (simp add: model_simps enabled_module_def enabled_klass_def base_klass_def
        insert_commute)
  have load: "PythonModule (one_file enabled_module) ''/t/enabled.py'' ''avocado'' ''Test'' =
      Some enabled_module"
    by (simp add: one_file_def enabled_module_def)
  have split: "classes enabled_module = [base_klass] @ enabled_klass # []"
    by (simp add: enabled_module_def)
  have flags: "enable (docstring enabled_klass)" "\<not> disable (docstring enabled_klass)"
    by (simp_all add: enabled_klass_def no_directives_def)
  have own: "own_methods_info enabled_klass = ?own"
    by (simp add: model_simps enabled_klass_def insert_commute)
  from enabled_class_records_own_methods [OF run load split flags,
      where ?result0.0 = "[]" and ?disabled0.0 = "{}"]
  have "map_of ?result (name enabled_klass) = Some (own_methods_info enabled_klass)"
    by simp
  then have "map_of ?result (name enabled_klass) = Some ?own"
    by (simp only: own)
  with own run split flags show ?thesis
    unfolding find_avocado_tests_def by blast
qed

text \<open>
  C4 as stated fails when the file defines the name twice: the first class \<^verbatim>\<open>Foo\<close>
  has \<^verbatim>\<open>enable\<close> and declares \<^verbatim>\<open>test_a\<close>, and the result holds under \<^verbatim>\<open>Foo\<close> the
  methods of the second class.
\<close>

theorem enabled_class_overwritten_counterexample:
  "find_avocado_tests (one_file twice_enabled_module) 0 ''/t/twice.py'' =
     Inr ([(''Foo'', [(''test_b'', {}, [])])], {}) \<and>
   foo_enabled_klass \<in> set (classes twice_enabled_module) \<and>
   enable (docstring foo_enabled_klass) \<and> \<not> disable (docstring foo_enabled_klass) \<and>
   own_methods_info foo_enabled_klass = [(''test_a'', {}, [])] \<and>
   map_of [(''Foo'', [(''test_b'', {} :: string set, [] :: string list)])]
     (name foo_enabled_klass) \<noteq> Some (own_methods_info foo_enabled_klass)"
  by (simp add: model_simps twice_enabled_module_def foo_enabled_klass_def
      foo_enabled_again_klass_def)

text \<open>
  C5, as the code has it. The name of a top-level class with \<^verbatim>\<open>disable\<close> is in the
  disabled set, whatever the bases of the class. The name is a key of the result only
  when another top-level class of the file has the same name and no \<^verbatim>\<open>disable\<close>.
\<close>

theorem disabled_class_in_disabled_set:
  assumes "find_python_tests e depth tm tc dm p = Inr (result, disabled)"
    and "PythonModule e p tm tc = Some module"
    and "k \<in> set (classes module)"
    and "disable (docstring k)"
  shows "name k \<in> disabled \<and>
    (name k \<in> fst ` set result \<longrightarrow>
       (\<exists>k'\<in>set (classes module). name k' = name k \<and> \<not> disable (docstring k')))"
proof -
  from assms(1,2) have loop: "find_python_tests_loop e depth tm tc dm module (classes module)
      ([], {}) = Inr (result, disabled)"
    by (simp add: find_python_tests_def)
  from loop_disabled [OF loop] assms(3,4) have "name k \<in> disabled" by blast
  moreover from loop_keys [OF loop, of "name k"]
  have "name k \<in> fst ` set result \<longrightarrow>
      (\<exists>k'\<in>set (classes module). name k' = name k \<and> \<not> disable (docstring k'))"
    by auto
  ultimately show ?thesis by blast
qed

text \<open>A file whose only class is disabled: the name is disabled and is no key.\<close>

theorem disabled_class_in_disabled_set_witness:
  "find_avocado_tests (one_file disabled_module) 0 ''/t/disabled.py'' = Inr ([], {''Foo''}) \<and>
   foo_disabled_klass \<in> set (classes disabled_module) \<and>
   disable (docstring foo_disabled_klass) \<and>
   name foo_disabled_klass \<in> {''Foo''} \<and>
   name foo_disabled_klass \<notin> fst ` set ([] :: (string \<times> method_info list) list)"
proof -
  have run: "find_python_tests (one_file disabled_module) 0 ''avocado'' ''Test''
      determine_match_avocado ''/t/disabled.py'' = Inr ([], {''Foo''})"
    by (simp add: model_simps disabled_module_def foo_disabled_klass_def)
  have load: "PythonModule (one_file disabled_module) ''/t/disabled.py'' ''avocado'' ''Test'' =
      Some disabled_module"
    by (simp add: one_file_def disabled_module_def)
  have k: "foo_disabled_klass \<in> set (classes disabled_module)"
    by (simp add: disabled_module_def)
  have flag: "disable (docstring foo_disabled_klass)"
    by (simp add: foo_disabled_klass_def no_directives_def)
  from disabled_class_in_disabled_set [OF run load k flag] run k flag
  show ?thesis by (simp add: find_avocado_tests_def)
qed

text \<open>
  C5 as stated fails when the file defines the name twice: the last class \<^verbatim>\<open>Foo\<close> is
  disabled, and \<^verbatim>\<open>Foo\<close> is a key of the result, with the methods of the earlier
  class.
\<close>

theorem disabled_name_is_key_counterexample:
  "find_avocado_tests (one_file redefined_module) 0 ''/t/redefined.py'' =
     Inr ([(''Foo'', [(''test_a'', {}, [])])], {''Foo''}) \<and>
   foo_disabled_klass \<in> set (classes redefined_module) \<and>
   disable (docstring foo_disabled_klass) \<and>
   name foo_disabled_klass \<in> fst ` set [(''Foo'', [(''test_a'', {} :: string set, [] :: string list)])]"
  by (simp add: model_simps redefined_module_def foo_enabled_klass_def foo_disabled_klass_def)

text \<open>
  C10, as the code has it. For a class with both \<^verbatim>\<open>disable\<close> and \<^verbatim>\<open>enable\<close>, the
  \<^verbatim>\<open>disable\<close> branch is taken: the name is in the disabled set, and processing the
  class leaves the result as the classes before it made it, so its methods are not
  recorded. The name is a key of the result only when another class of the file has
  the same name and no \<^verbatim>\<open>disable\<close>.
\<close>

theorem disable_precedes_enable:
  assumes "find_python_tests e depth tm tc dm p = Inr (result, disabled)"
    and "PythonModule e p tm tc = Some module"
    and "classes module = before @ k # after"
    and "disable (docstring k)" and "enable (docstring k)"
  shows "name k \<in> disabled \<and>
    (\<exists>r d. find_python_tests_loop e depth tm tc dm module before ([], {}) = Inr (r, d) \<and>
       find_python_tests_loop e depth tm tc dm module (before @ [k]) ([], {}) =
         Inr (r, insert (name k) d)) \<and>
    ((\<forall>k'\<in>set (before @ after). name k' = name k \<longrightarrow> disable (docstring k')) \<longrightarrow>
       name k \<notin> fst ` set result)"
proof -
  from assms(1,2,3) have loop: "find_python_tests_loop e depth tm tc dm module
      (before @ k # after) ([], {}) = Inr (result, disabled)"
    by (simp add: find_python_tests_def)
  from loop_disabled [OF loop] assms(4) have in_disabled: "name k \<in> disabled" by simp
  from loop obtain r d where
    before: "find_python_tests_loop e depth tm tc dm module before ([], {}) = Inr (r, d)"
    by (auto simp: loop_append split: sum.splits)
  have "find_python_tests_klass e depth tm tc dm module k (r, d) = Inr (r, insert (name k) d)"
    using assms(4) by (simp add: find_python_tests_klass_def check_docstring_directive_simps)
  with before have step: "find_python_tests_loop e depth tm tc dm module (before @ [k]) ([], {}) =
      Inr (r, insert (name k) d)"
    by (simp add: loop_append)
  have "name k \<notin> fst ` set result"
    if "\<forall>k'\<in>set (before @ after). name k' = name k \<longrightarrow> disable (docstring k')"
    using loop_keys [OF loop, of "name k"] that assms(4) by auto
  with in_disabled before step show ?thesis by blast
qed

text \<open>A file whose only class has both directives.\<close>

theorem disable_precedes_enable_witness:
  "find_avocado_tests (one_file both_module) 0 ''/t/both.py'' = Inr ([], {''Foo''}) \<and>
   classes both_module = [] @ foo_both_klass # [] \<and>
   disable (docstring foo_both_klass) \<and> enable (docstring foo_both_klass) \<and>
   name foo_both_klass \<in> {''Foo''} \<and>
   name foo_both_klass \<notin> fst ` set ([] :: (string \<times> method_info list) list)"
proof -
  have run: "find_python_tests (one_file both_module) 0 ''avocado'' ''Test''
      determine_match_avocado ''/t/both.py'' = Inr ([], {''Foo''})"
    by (simp add: model_simps both_module_def foo_both_klass_def)
  have load: "PythonModule (one_file both_module) ''/t/both.py'' ''avocado'' ''Test'' =
      Some both_module"
    by (simp add: one_file_def both_module_def)
  have split: "classes both_module = [] @ foo_both_klass # []"
    by (simp add: both_module_def)
  have flags: "disable (docstring foo_both_klass)" "enable (docstring foo_both_klass)"
    by (simp_all add: foo_both_klass_def no_directives_def)
  from disable_precedes_enable [OF run load split flags] run split flags
  show ?thesis by (simp add: find_avocado_tests_def)
qed

text \<open>
  C10 as stated fails when the file defines the name twice: the last class \<^verbatim>\<open>Foo\<close>
  has both directives, and \<^verbatim>\<open>Foo\<close> appears in the result, with the methods of the
  earlier class.
\<close>

theorem both_directives_name_is_key_counterexample:
  "find_avocado_tests (one_file redefined_both_module) 0 ''/t/redefined_both.py'' =
     Inr ([(''Foo'', [(''test_a'', {}, [])])], {''Foo''}) \<and>
   foo_both_klass \<in> set (classes redefined_both_module) \<and>
   disable (docstring foo_both_klass) \<and> enable (docstring foo_both_klass) \<and>
   map_of [(''Foo'', [(''test_a'', {} :: string set, [] :: string list)])] (name foo_both_klass) =
     Some [(''test_a'', {}, [])]"
  by (simp add: model_simps redefined_both_module_def foo_enabled_klass_def
      foo_both_klass_def)

subsection \<open>Termination\<close>

lemma same_module_loop_returns:
  assumes "\<And>c m. Name c \<in> set todo \<Longrightarrow> examine (path module) c m \<noteq> Inl RecursionError"
  shows "examine_same_module_loop examine todo parents info disabled match module \<noteq>
    Inl RecursionError"
  using assms
proof (induction todo arbitrary: parents info disabled match)
  case Nil
  then show ?case by simp
next
  case (Cons parent todo)
  have rest: "examine_same_module_loop examine todo ps i d m module \<noteq> Inl RecursionError"
    for ps i d m
    by (rule Cons.IH) (simp add: Cons.prems)
  show ?case
  proof (cases parent)
    case (Name c)
    have "examine (path module) c match \<noteq> Inl RecursionError"
      by (rule Cons.prems) (simp add: Name)
    with rest Name show ?thesis
      by (auto split: sum.splits)
  qed (use rest in auto)
qed

lemma get_attributes_no_overflow:
  "get_attributes_for_further_examination parent module \<noteq> Inl RecursionError"
  by (induction parent module rule: get_attributes_for_further_examination.induct)
    (auto split: option.splits)

lemma other_modules_returns:
  assumes "\<And>parent pp pm pc origin m.
      parent \<in> set parents \<Longrightarrow>
      get_attributes_for_further_examination parent module = Inr (pp, pm, pc) \<Longrightarrow>
      find_spec e pm ([pp, dirname (path module)] @ sys_path e) = Some origin \<Longrightarrow>
      examine origin pc m \<noteq> Inl RecursionError"
  shows "examine_other_modules merge examine e parents info disabled match module \<noteq>
    Inl RecursionError"
  using assms
proof (induction parents arbitrary: info disabled match)
  case Nil
  then show ?case by simp
next
  case (Cons parent parents)
  have rest: "examine_other_modules merge examine e parents i d m module \<noteq> Inl RecursionError"
    for i d m
    by (rule Cons.IH) (rule Cons.prems, simp_all)
  show ?case
  proof (cases "get_attributes_for_further_examination parent module")
    case (Inl err)
    with rest get_attributes_no_overflow [of parent module] show ?thesis by (cases err) auto
  next
    case (Inr parts)
    obtain pp pm pc where parts: "parts = (pp, pm, pc)" by (cases parts) auto
    show ?thesis
    proof (cases "find_spec e pm ([pp, dirname (path module)] @ sys_path e)")
      case None
      with rest Inr parts show ?thesis by simp
    next
      case (Some origin)
      have "examine origin pc match \<noteq> Inl RecursionError"
        using Inr [unfolded parts] Some by (intro Cons.prems [of parent pp pm pc origin]) simp_all
      with rest Inr parts Some show ?thesis
        by (auto split: sum.splits)
    qed
  qed
qed

lemma class_loop_returns:
  assumes "\<And>k parent r m. k \<in> set ks \<Longrightarrow> name k = class_name \<Longrightarrow> parent \<in> set (bases k) \<Longrightarrow>
      r \<in> set (parent_references e module parent) \<Longrightarrow>
      examine (fst r) (snd r) m \<noteq> Inl RecursionError"
  shows "examine_class_loop examine e dm module class_name ks info disabled match \<noteq>
    Inl RecursionError"
  using assms
proof (induction ks arbitrary: info disabled match)
  case Nil
  then show ?case by simp
next
  case (Cons k ks)
  have rest: "examine_class_loop examine e dm module class_name ks i d m \<noteq> Inl RecursionError"
    for i d m
    by (rule Cons.IH) (rule Cons.prems, simp_all)
  show ?case
  proof (cases "class_name = name k")
    case False
    with rest show ?thesis by simp
  next
    case True
    have calls: "examine (fst r) (snd r) m \<noteq> Inl RecursionError"
      if "parent \<in> set (bases k)" "r \<in> set (parent_references e module parent)" for parent r m
      using that True by (intro Cons.prems [of k parent r m]) simp_all
    have sm: "examine_same_module examine (bases k) i d m module \<noteq> Inl RecursionError"
      for i d m
      unfolding examine_same_module_def
    proof (rule same_module_loop_returns)
      fix c m'
      assume "Name c \<in> set (bases k)"
      from calls [OF this, of "(path module, c)" m']
      show "examine (path module) c m' \<noteq> Inl RecursionError"
        by (simp add: parent_references_def)
    qed
    have om: "examine_other_modules extend_test_list examine e ps i d m module \<noteq>
        Inl RecursionError"
      if "set ps \<subseteq> set (bases k)" for ps i d m
    proof (rule other_modules_returns)
      fix parent pp pm pc origin m'
      assume "parent \<in> set ps"
        and "get_attributes_for_further_examination parent module = Inr (pp, pm, pc)"
        and "find_spec e pm ([pp, dirname (path module)] @ sys_path e) = Some origin"
      with that calls [of parent "(origin, pc)" m']
      show "examine origin pc m' \<noteq> Inl RecursionError"
        by (auto simp: parent_references_def)
    qed
    show ?thesis
    proof (cases "examine_same_module examine (bases k) (own_methods_info k) disabled
        (if \<not> match then dm module k (docstring k) else match) module")
      case (Inl err)
      with sm [of "own_methods_info k" disabled
          "if \<not> match then dm module k (docstring k) else match"] True
      show ?thesis by (auto simp: Let_def)
    next
      case (Inr st)
      obtain ps i2 d2 m2 where st: "st = (ps, i2, d2, m2)" by (cases st) auto
      from Inr st have "set ps \<subseteq> set (bases k)"
        by (auto simp: examine_same_module_def dest: same_module_loop_parents)
      from om [OF this, of i2 d2 m2] rest Inr st True show ?thesis
        by (auto simp: Let_def split: sum.splits)
    qed
  qed
qed


text \<open>
  C8, as the code has it. When the base references are well-founded, that is, when some
  rank of the pairs of path and class name goes down along every reference from a
  class to a parent in the same file or in another file, \<^verbatim>\<open>_examine_class\<close>
  terminates: a recursion budget above the rank of the requested class is never used
  up. The code keeps no record of the classes it has visited.
\<close>

theorem examine_class_returns_when_ranked:
  assumes "\<forall>pc. \<forall>r\<in>set (references e tm tc pc). rank r < (rank pc :: nat)"
    and "rank (p, c) < depth"
  shows "examine_class e depth tm tc dm p c match \<noteq> Inl RecursionError"
  using assms(2)
proof (induction depth arbitrary: p c match)
  case 0
  then show ?case by simp
next
  case (Suc depth)
  show ?case
  proof (cases "PythonModule e p tm tc")
    case None
    then show ?thesis by simp
  next
    case (Some module)
    have "examine_class_loop (examine_class e depth tm tc dm) e dm module c (classes module)
        [] {} match \<noteq> Inl RecursionError"
    proof (rule class_loop_returns)
      fix k parent r m
      assume "k \<in> set (classes module)" "name k = c" "parent \<in> set (bases k)"
        "r \<in> set (parent_references e module parent)"
      with Some have "r \<in> set (references e tm tc (p, c))"
        by (auto simp: references_def)
      with assms(1) have "rank r < rank (p, c)" by blast
      with Suc.prems have "rank (fst r, snd r) < depth" by simp
      then show "examine_class e depth tm tc dm (fst r) (snd r) m \<noteq> Inl RecursionError"
        by (rule Suc.IH)
    qed
    with Some show ?thesis by simp
  qed
qed

text \<open>
  In the file of \<^verbatim>\<open>Base\<close> and \<^verbatim>\<open>Child\<close>, \<^verbatim>\<open>Child\<close> has rank 2, \<^verbatim>\<open>Base\<close> rank 1 and
  every other name rank 0; a budget of 3 is enough for \<^verbatim>\<open>Child\<close>.
\<close>

theorem examine_class_returns_when_ranked_witness:
  "inherit_rank (''/t/inherit.py'', ''Child'') < 3 \<and>
   examine_class (one_file inherit_module) 3 ''avocado'' ''Test'' determine_match_avocado
     ''/t/inherit.py'' ''Child'' False \<noteq> Inl RecursionError"
proof -
  have ranked: "\<forall>pc. \<forall>r\<in>set (references (one_file inherit_module) ''avocado'' ''Test'' pc).
      inherit_rank r < inherit_rank pc"
    by (auto simp: references_def parent_references_def one_file_def inherit_module_def
        base_klass_def child_klass_def inherit_rank_def rsplit_sep_2_def sep_def
        split: if_splits)
  have small: "inherit_rank (''/t/inherit.py'', ''Child'') < 3"
    by (simp add: inherit_rank_def)
  from small examine_class_returns_when_ranked [OF ranked small]
  show ?thesis by blast
qed

text \<open>
  C8 as stated fails on \<^verbatim>\<open>class A(A)\<close>: whatever the recursion budget, examining
  \<^verbatim>\<open>A\<close> uses it up.
\<close>

theorem cyclic_class_counterexample:
  "\<forall>depth match. examine_class (one_file cyclic_module) depth ''avocado'' ''Test''
     determine_match_avocado ''/t/cyclic.py'' ''A'' match = Inl RecursionError"
proof (intro allI)
  fix depth match
  show "examine_class (one_file cyclic_module) depth ''avocado'' ''Test''
     determine_match_avocado ''/t/cyclic.py'' ''A'' match = Inl RecursionError"
    by (induction depth arbitrary: match)
      (simp_all add: model_simps cyclic_module_def cyclic_klass_def)
qed

subsection \<open>Names in the list of a resolved class\<close>

text \<open>
  What \<^verbatim>\<open>_examine_class\<close> returns has no method name twice: the methods of one class
  are collected without repetition, and both loops over the parents merge with
  \<^verbatim>\<open>_extend_test_list\<close>.
\<close>

lemma examine_class_distinct:
  "examine_class e depth tm tc dm p c match = Inr (info, disabled, match') \<Longrightarrow>
   distinct (map fst info)"
proof (induction depth arbitrary: p c match info disabled match')
  case 0
  then show ?case by simp
next
  case (Suc depth)
  let ?examine = "examine_class e depth tm tc dm"
  from Suc.prems obtain module where
    loop: "examine_class_loop ?examine e dm module c (classes module) [] {} match =
      Inr (info, disabled, match')"
    by (auto split: option.splits)
  from loop show ?case
  proof (rule class_loop_invariant [where I = "\<lambda>i d m. distinct (map fst i)"])
    show "distinct (map fst ([] :: method_info list))" by simp
  next
    fix k d m ps i2 d2 m2 i3 d3 m3
    assume sm: "examine_same_module ?examine (bases k) (own_methods_info k) d
          (if \<not> m then dm module k (docstring k) else m) module = Inr (ps, i2, d2, m2)"
      and om: "examine_other_modules extend_test_list ?examine e ps i2 d2 m2 module =
          Inr (i3, d3, m3)"
    from sm [unfolded examine_same_module_def] have "distinct (map fst i2)"
      by (rule same_module_loop_invariant [where I = "\<lambda>ps i d m. distinct (map fst i)"])
        (simp_all add: get_methods_info_distinct extend_test_list_distinct)
    with om show "distinct (map fst i3)"
      by (rule other_modules_invariant [where I = "\<lambda>i d m. distinct (map fst i)"])
        (simp add: extend_test_list_distinct)
  qed
qed

subsection \<open>Scenarios\<close>

text \<open>
  C1. \<^verbatim>\<open>Child\<close> and its parent \<^verbatim>\<open>Base\<close> both declare \<^verbatim>\<open>test_a\<close>. With \<^verbatim>\<open>Base\<close> in
  another file, the list of \<^verbatim>\<open>Child\<close> has two entries named \<^verbatim>\<open>test_a\<close>: the loop
  of \<^verbatim>\<open>find_python_tests\<close> over the parents of other modules appends with
  \<^verbatim>\<open>info.extend\<close>. With the same two classes in one file the list has the one entry of
  \<^verbatim>\<open>Child\<close>, as \<^verbatim>\<open>_extend_test_list\<close> makes it.
\<close>

theorem inherited_method_listed_twice:
  "find_avocado_tests two_files 2 ''/t/child.py'' =
     Inr ([(''Child'', [(''test_a'', {''child''}, []), (''test_a'', {''base''}, [])])], {}) \<and>
   find_avocado_tests (one_file same_file_override_module) 2 ''/t/override.py'' =
     Inr ([(''Base'', [(''test_a'', {''base''}, [])]),
           (''Child'', [(''test_a'', {''child''}, [])])], {})"
  by (simp add: model_simps two_files_def child_module_def base_module_def
      same_file_override_module_def override_klass_def foreign_base_klass_def numeral_2_eq_2)

lemma other_modules_no_class:
  assumes "contributes_no_class e tm tc module parent"
  shows "examine_other_modules merge (examine_class e (Suc depth) tm tc dm) e [parent]
      info disabled match module = Inr (info, disabled, match)"
proof (cases "get_attributes_for_further_examination parent module")
  case (Inl err)
  with assms show ?thesis by (simp add: contributes_no_class_def)
next
  case (Inr parts)
  obtain pp pm pc where parts: "parts = (pp, pm, pc)" by (cases parts) auto
  show ?thesis
  proof (cases "find_spec e pm ([pp, dirname (path module)] @ sys_path e)")
    case None
    with Inr parts show ?thesis by simp
  next
    case (Some origin)
    with assms Inr parts obtain found where
      "PythonModule e origin tm tc = Some found" "pc \<notin> name ` set (classes found)"
      by (auto simp: contributes_no_class_def split: option.splits)
    then have "examine_class e (Suc depth) tm tc dm origin pc match = Inr ([], {}, match)"
      by (simp add: examine_class_loop_no_class)
    with Inr parts Some show ?thesis by simp
  qed
qed

text \<open>
  C2, as the code has it. In a file with \<^verbatim>\<open>class Base(GenericTestBase)\<close> declaring
  \<^verbatim>\<open>test_a\<close> and \<^verbatim>\<open>class Child(Base)\<close> declaring \<^verbatim>\<open>test_b\<close>, where \<^verbatim>\<open>Base\<close> matches
  the target and the target contributes no class (the file that defines it is not
  found, or the file found declares no class of that name), the result maps \<^verbatim>\<open>Base\<close>
  to \<^verbatim>\<open>test_a\<close> and \<^verbatim>\<open>Child\<close> to \<^verbatim>\<open>test_b\<close> followed by \<^verbatim>\<open>test_a\<close>: the method of
  the class itself comes first, the inherited one after it.
\<close>

theorem same_file_parent_methods_follow_own:
  assumes "PythonModule e p ''avocado'' ''Test'' = Some module"
    and "path module = p"
    and "classes module =
      [\<lparr>name = ''Base'', bases = [Name ''GenericTestBase''], docstring = no_directives,
         body = [FunctionDef ''test_a'' doc_a]\<rparr>,
       \<lparr>name = ''Child'', bases = [Name ''Base''], docstring = no_directives,
         body = [FunctionDef ''test_b'' doc_b]\<rparr>]"
    and "is_matching_klass module
      \<lparr>name = ''Base'', bases = [Name ''GenericTestBase''], docstring = no_directives,
         body = [FunctionDef ''test_a'' doc_a]\<rparr>"
    and "contributes_no_class e ''avocado'' ''Test'' module (Name ''GenericTestBase'')"
  shows "find_avocado_tests e (Suc (Suc depth)) p =
    Inr ([(''Base'', [(''test_a'', tags doc_a, requirements doc_a)]),
          (''Child'', [(''test_b'', tags doc_b, requirements doc_b),
                       (''test_a'', tags doc_a, requirements doc_a)])], {})"
proof -
  let ?examine = "\<lambda>depth. examine_class e depth ''avocado'' ''Test'' determine_match_avocado"
  note defs = examine_same_module_def determine_match_avocado_def
    check_docstring_directive_def get_docstring_directives_def
    get_docstring_directives_tags_def get_docstring_directives_requirements_def
    get_methods_info_def startswith_def no_directives_def Let_def
  have other: "examine_other_modules merge (?examine (Suc d)) e [Name ''GenericTestBase'']
      info disabled m module = Inr (info, disabled, m)" for merge d info disabled m
    using assms(5) by (rule other_modules_no_class)
  have target: "?examine (Suc d) p ''GenericTestBase'' m = Inr ([], {}, m)" for d m
    using assms(1,3) by simp
  have base: "?examine (Suc (Suc depth)) p ''Base'' m =
      Inr ([(''test_a'', tags doc_a, requirements doc_a)], {}, True)" for m
    using assms(1-4) target [of depth] other [of extend_test_list depth]
    by (cases m) (simp_all add: defs del: examine_other_modules.simps(2))
  show ?thesis
    unfolding find_avocado_tests_def find_python_tests_def
    using assms(1-4) base target other [of "(@)" "Suc depth"]
    by (cases "is_matching_klass module
          \<lparr>name = ''Child'', bases = [Name ''Base''], docstring = no_directives,
            body = [FunctionDef ''test_b'' doc_b]\<rparr>")
      (simp_all add: find_python_tests_klass_def defs
        del: examine_class.simps examine_other_modules.simps(2))
qed

text \<open>
  The run with the target's package on the search path: the package is found,
  declares no class \<^verbatim>\<open>GenericTestBase\<close>, and adds nothing.
\<close>

theorem same_file_parent_methods_follow_own_witness:
  "contributes_no_class installed ''avocado'' ''Test'' inherit_module
     (Name ''GenericTestBase'') \<and>
   find_spec installed ''generic'' [''/t'', ''/t'', ''/lib''] = Some ''/lib/generic/__init__.py'' \<and>
   find_avocado_tests installed (Suc (Suc 0)) ''/t/inherit.py'' =
     Inr ([(''Base'', [(''test_a'', {}, [])]),
           (''Child'', [(''test_b'', {}, []), (''test_a'', {}, [])])], {})"
proof -
  have load: "PythonModule installed ''/t/inherit.py'' ''avocado'' ''Test'' =
      Some inherit_module"
    by (simp add: installed_def)
  have same: "path inherit_module = ''/t/inherit.py''"
    by (simp add: inherit_module_def)
  have two: "classes inherit_module =
      [\<lparr>name = ''Base'', bases = [Name ''GenericTestBase''], docstring = no_directives,
         body = [FunctionDef ''test_a'' no_directives]\<rparr>,
       \<lparr>name = ''Child'', bases = [Name ''Base''], docstring = no_directives,
         body = [FunctionDef ''test_b'' no_directives]\<rparr>]"
    by (simp add: inherit_module_def base_klass_def child_klass_def)
  have matching: "is_matching_klass inherit_module
      \<lparr>name = ''Base'', bases = [Name ''GenericTestBase''], docstring = no_directives,
         body = [FunctionDef ''test_a'' no_directives]\<rparr>"
    by (simp add: inherit_module_def)
  have no_class: "contributes_no_class installed ''avocado'' ''Test'' inherit_module
      (Name ''GenericTestBase'')"
    by (simp add: contributes_no_class_def installed_def inherit_module_def generic_package_def
        rsplit_sep_2_def dirname_def sep_def)
  have found: "find_spec installed ''generic'' [''/t'', ''/t'', ''/lib''] =
      Some ''/lib/generic/__init__.py''"
    by (simp add: installed_def)
  from same_file_parent_methods_follow_own [OF load same two matching no_class,
      where depth = 0]
  have "find_avocado_tests installed (Suc (Suc 0)) ''/t/inherit.py'' =
     Inr ([(''Base'', [(''test_a'', {}, [])]),
           (''Child'', [(''test_b'', {}, []), (''test_a'', {}, [])])], {})"
    by (simp add: no_directives_def)
  with no_class found show ?thesis by blast
qed

text \<open>
  C2 as stated fails on that file: the list of \<^verbatim>\<open>Child\<close> is not \<^verbatim>\<open>test_a\<close> followed by
  \<^verbatim>\<open>test_b\<close>.
\<close>

theorem inherited_method_first_counterexample:
  "\<not> (\<exists>result disabled.
        find_avocado_tests (one_file inherit_module) 2 ''/t/inherit.py'' =
          Inr (result, disabled) \<and>
        map_of result ''Child'' = Some [(''test_a'', {}, []), (''test_b'', {}, [])])"
  by (simp add: model_simps inherit_module_def base_klass_def child_klass_def numeral_2_eq_2)

text \<open>
  C6, as the code has it. For a file whose one class has the single base
  \<^verbatim>\<open>alias.Attr\<close> with \<^verbatim>\<open>alias\<close> absent from the import table, discovery raises
  nothing, with any recursion budget; the base is skipped. The class is in the result,
  with exactly its own methods, when it carries \<^verbatim>\<open>enable\<close> or \<^verbatim>\<open>recursive\<close> or
  matches the target by itself, and is left out otherwise.
\<close>

theorem unresolved_alias_is_skipped:
  assumes "PythonModule e p tm tc = Some module"
    and "classes module = [k]"
    and "bases k = [Attribute (Name alias) attr]"
    and "imported_objects module alias = None"
    and "\<not> disable (docstring k)"
  shows "find_python_tests e depth tm tc dm p =
    Inr (if enable (docstring k) \<or> recursive (docstring k) \<or> is_matching_klass module k
         then [(name k, own_methods_info k)] else [], {})"
  using assms
  by (simp add: find_python_tests_def find_python_tests_klass_def examine_same_module_def
      check_docstring_directive_simps)

text \<open>With \<^verbatim>\<open>recursive\<close> in its docstring, \<^verbatim>\<open>Child\<close> is reported with its own method.\<close>

theorem unresolved_alias_is_skipped_witness:
  "find_python_tests (one_file recursive_unresolved_module) 0 ''avocado'' ''Test''
     determine_match_avocado ''/t/recursive.py'' =
     Inr ([(''Child'', [(''test_own'', {}, [])])], {})"
proof -
  have load: "PythonModule (one_file recursive_unresolved_module) ''/t/recursive.py''
      ''avocado'' ''Test'' = Some recursive_unresolved_module"
    by (simp add: one_file_def recursive_unresolved_module_def)
  have one: "classes recursive_unresolved_module = [recursive_unresolved_klass]"
    by (simp add: recursive_unresolved_module_def)
  have base: "bases recursive_unresolved_klass = [Attribute (Name ''unresolved'') ''Foreign'']"
    by (simp add: recursive_unresolved_klass_def)
  have unknown: "imported_objects recursive_unresolved_module ''unresolved'' = None"
    by (simp add: recursive_unresolved_module_def)
  have enabled: "\<not> disable (docstring recursive_unresolved_klass)"
    by (simp add: recursive_unresolved_klass_def no_directives_def)
  from unresolved_alias_is_skipped [OF load one base unknown enabled,
      of 0 determine_match_avocado]
  show ?thesis
    by (simp add: model_simps recursive_unresolved_klass_def)
qed

text \<open>
  C6 as stated fails without a directive: the file imports nothing, so \<^verbatim>\<open>Child\<close>
  matches no target, and the result is empty.
\<close>

theorem unresolved_parent_not_reported_counterexample:
  "\<forall>depth. find_avocado_tests (one_file unresolved_module) depth ''/t/unresolved.py'' =
     Inr ([], {})"
  by (simp add: model_simps unresolved_module_def unresolved_klass_def)

end
